theory Spec2Isabelle
  imports Main "HOL-Library.Word"
begin

unbundle bit_operations_syntax

section \<open>The AZTEC Cryptography Engine (ACE.sol)\<close>

text \<open>
  A shallow embedding of \<^verbatim>\<open>packages/protocol/contracts/ACE/ACE.sol\<close>: the contract's
  storage is a record, every external function is a HOL function from the storage before
  the call to either an error (the call reverted) or the storage after it.

  A \<^verbatim>\<open>require\<close> that fails, and the \<^verbatim>\<open>revert\<close> of the inline assembly, abort the
  whole call and the EVM discards every storage write the call has made. A reverted call
  is therefore \<open>Inl e\<close>, carrying no storage at all; \<open>commit\<close> below is the
  transaction boundary that keeps the storage of before the call in that case.
  Events (\<^verbatim>\<open>emit\<close>) write to the log only and are left out.
\<close>

subsection \<open>Values\<close>

type_synonym address = "160 word"
type_synonym bytes32 = "256 word"
type_synonym uint24 = "24 word"
type_synonym uint8 = "8 word"
type_synonym bytes = "8 word list"

text \<open>
  One constructor for each way a call of ACE.sol reverts:
  \<^item> \<open>Unauthorized\<close>: \<^verbatim>\<open>require(isOwner(), "only the owner can ...")\<close>;
  \<^item> \<open>UnknownValidator\<close>: \<^verbatim>\<open>"expected the validator address to exist"\<close> and
    \<^verbatim>\<open>"can only invalidate proofs that exist!"\<close>;
  \<^item> \<open>DisabledValidator\<close>: \<^verbatim>\<open>"expected the validator address to not be disabled"\<close>
    and \<^verbatim>\<open>"this proof id has been invalidated!"\<close>;
  \<^item> \<open>AlreadyRegistered\<close>: \<^verbatim>\<open>"existing proofs cannot be modified"\<close>;
  \<^item> \<open>EpochExceeded\<close>: \<^verbatim>\<open>"the proof epoch cannot be bigger than the latest epoch"\<close>;
  \<^item> \<open>InvalidFingerprint\<close>: \<^verbatim>\<open>"expected no empty proof hash"\<close>;
  \<^item> \<open>NotPreviouslyValidated\<close>: \<^verbatim>\<open>"can only clear previously validated proofs"\<close>;
  \<^item> \<open>ValidationRejected\<close>: \<^verbatim>\<open>mstore(0x00, 400) revert(0x00, 0x20)\<close>, the
    validator's call failed;
  \<^item> \<open>Overflow\<close>: the checked 8-bit addition of \<^verbatim>\<open>SafeMath8\<close>;
  \<^item> \<open>InheritedRevert\<close>: a revert of a function that ACE inherits, other than a
    failed ownership check.
\<close>

datatype error =
    Unauthorized
  | UnknownValidator
  | DisabledValidator
  | AlreadyRegistered
  | EpochExceeded
  | InvalidFingerprint
  | NotPreviouslyValidated
  | ValidationRejected
  | Overflow
  | InheritedRevert

subsection \<open>Storage\<close>

text \<open>
  The state variables of the contract, and \<^verbatim>\<open>_owner\<close> of the inherited
  \<^verbatim>\<open>Ownable\<close>. The two fixed-size arrays are read by the inline assembly through raw
  \<^verbatim>\<open>sload\<close>s, so they are kept as what the EVM stores: one value per storage slot,
  indexed by the slot's offset from the array's first slot (\<^verbatim>\<open>validators_slot\<close>,
  \<^verbatim>\<open>disabledValidators_slot\<close>).
  \<^item> \<^verbatim>\<open>address[0x100][0x100][0x10000] public validators\<close>: an address takes 20 bytes,
    two do not fit in a 32-byte slot, so every element has a slot of its own, which
    holds the address.
  \<^item> \<^verbatim>\<open>bool[0x100][0x100][0x10000] public disabledValidators\<close>: a \<^verbatim>\<open>bool\<close> takes one
    byte, and Solidity packs the elements of an array as it packs state variables
    (items of less than 32 bytes share a slot when they fit): 32 flags share a slot,
    the first in the lowest-order byte. A slot is kept as its 256-bit word.
  \<^item> \<^verbatim>\<open>mapping(bytes32 => bool) public validatedProofs\<close>: a map from the key to the
    flag (an absent key reads \<^verbatim>\<open>false\<close>).
\<close>

record ace_state =
  owner :: address
  commonReferenceString :: "bytes32 list"
  validators :: "nat \<Rightarrow> address"
  disabledValidators :: "nat \<Rightarrow> bytes32"
  latestEpoch :: uint8
  validatedProofs :: "bytes32 \<Rightarrow> bool"

text \<open>
  What the contract takes from outside its own file:
  \<^item> \<open>keccak256\<close>: the EVM's hash, from bytes to a 32-byte word. Nothing is assumed of
    it; a theorem that needs two hashes to differ says so.
  \<^item> \<open>staticcall\<close>: the call of the validator contract at an address, with the proof
    data, \<^verbatim>\<open>_sender\<close> and the common reference string as its calldata. A static call
    may read the storage of ACE (through its public getters) and cannot write it, so the
    callee is a function of the storage at the time of the call. \<open>None\<close> is a failed
    call (\<^verbatim>\<open>staticcall\<close> returns 0); \<open>Some outs\<close> is the returned
    \<^verbatim>\<open>bytes proofOutputs\<close>.
  \<^item> \<open>BALANCED\<close>: \<^verbatim>\<open>uint8(ProofCategory.BALANCED)\<close>, an enum of
    \<^verbatim>\<open>interfaces/IAZTEC.sol\<close>.
  \<^item> \<open>noteRegistry\<close>: the state-changing functions that ACE inherits from
    \<^verbatim>\<open>NoteRegistry\<close> (\<^verbatim>\<open>contract ACE is IAZTEC, Ownable, NoteRegistry\<close>, line 21), whose
    file is not under src: a call of one of them, given by its caller and its calldata,
    reverts or returns the storage it leaves. Nothing is assumed of them; a theorem that
    needs them to leave a variable alone says so.
\<close>

record env =
  keccak256 :: "bytes \<Rightarrow> bytes32"
  staticcall :: "address \<Rightarrow> ace_state \<Rightarrow> bytes \<Rightarrow> address \<Rightarrow> bytes32 list \<Rightarrow> bytes list option"
  BALANCED :: uint8
  noteRegistry :: "address \<Rightarrow> bytes \<Rightarrow> ace_state \<Rightarrow> error + ace_state"

subsection \<open>Library functions the contract uses\<close>

text \<open>
  Modelled from the spec: \<^verbatim>\<open>ProofUtils.getProofComponents\<close>
  (\<^verbatim>\<open>libs/ProofUtils.sol\<close>). The proof identifier is "a 24-bit value decomposed
  into three 8-bit fields (epoch, category, id)"; the comments of ACE.sol fix the order:
  \<^verbatim>\<open>(epoch * 0x10000) = and(_proof, 0xffff0000)\<close>,
  \<^verbatim>\<open>(category * 0x100) = and(_proof, 0xff00)\<close>, \<^verbatim>\<open>(id) = and(_proof, 0xff)\<close>.
\<close>

definition getProofComponents :: "uint24 \<Rightarrow> uint8 \<times> uint8 \<times> uint8" where
  "getProofComponents proof =
     (ucast (drop_bit 16 proof AND 0xff), ucast (drop_bit 8 proof AND 0xff), ucast (proof AND 0xff))"

text \<open>
  Modelled from the spec: \<^verbatim>\<open>NoteUtils.getLength\<close> and \<^verbatim>\<open>NoteUtils.get\<close>
  (\<^verbatim>\<open>libs/NoteUtils.sol\<close>). The output blob "is an ordered sequence of sub-outputs,
  each independently fingerprint-able": the blob is the list of its sub-outputs,
  \<^verbatim>\<open>getLength\<close> its length and \<^verbatim>\<open>get(i)\<close> its i-th element.
\<close>

definition getLength :: "bytes list \<Rightarrow> nat" where
  "getLength proofOutputs = length proofOutputs"

definition get :: "bytes list \<Rightarrow> nat \<Rightarrow> bytes" where
  "get proofOutputs i = proofOutputs ! i"

text \<open>
  Modelled from the spec: \<^verbatim>\<open>SafeMath8.add\<close> (\<^verbatim>\<open>libs/SafeMath8.sol\<close>), which
  \<^verbatim>\<open>using SafeMath8 for uint8\<close> attaches to \<^verbatim>\<open>latestEpoch\<close>. The spec says nothing
  of it; it is taken to be what its name and OpenZeppelin's \<^verbatim>\<open>SafeMath\<close>, imported
  beside it, say: the addition of two \<^verbatim>\<open>uint8\<close> that reverts when the sum wraps.
\<close>

definition SafeMath8_add :: "uint8 \<Rightarrow> uint8 \<Rightarrow> error + uint8" where
  "SafeMath8_add a b = (let c = a + b in if c \<ge> a then Inr c else Inl Overflow)"

text \<open>
  Modelled from the spec: \<^verbatim>\<open>Ownable.isOwner\<close> (openzeppelin-solidity): the caller holds
  the owner credential when it is the stored owner.
\<close>

definition isOwner :: "ace_state \<Rightarrow> address \<Rightarrow> bool" where
  "isOwner st msg_sender = (msg_sender = owner st)"

text \<open>
  Modelled from the spec: \<^verbatim>\<open>Ownable.transferOwnership\<close> and
  \<^verbatim>\<open>Ownable.renounceOwnership\<close>, the two state-changing functions that ACE inherits from
  \<^verbatim>\<open>Ownable\<close> (openzeppelin-solidity, imported at line 4). The spec says nothing of
  them; they are taken as openzeppelin-solidity 2 has them: both require the owner,
  \<^verbatim>\<open>transferOwnership\<close> requires a new owner other than the zero address and stores it,
  \<^verbatim>\<open>renounceOwnership\<close> stores the zero address.
\<close>

definition transferOwnership :: "ace_state \<Rightarrow> address \<Rightarrow> address \<Rightarrow> error + ace_state" where
  "transferOwnership st msg_sender newOwner =
     (if \<not> isOwner st msg_sender then Inl Unauthorized
      else if newOwner = 0 then Inl InheritedRevert
      else Inr (st\<lparr>owner := newOwner\<rparr>))"

definition renounceOwnership :: "ace_state \<Rightarrow> address \<Rightarrow> error + ace_state" where
  "renounceOwnership st msg_sender =
     (if \<not> isOwner st msg_sender then Inl Unauthorized
      else Inr (st\<lparr>owner := 0\<rparr>))"

subsection \<open>ABI encoding and the ledger key\<close>

text \<open>
  \<^verbatim>\<open>abi.encode(proofHash, _proof, msg.sender)\<close>: three 32-byte big-endian words, the
  \<^verbatim>\<open>uint24\<close> and the address padded with zeros on the left. The assembly of
  \<^verbatim>\<open>validateProofByHash\<close> builds the same 0x60 bytes with three \<^verbatim>\<open>mstore\<close>s.
\<close>

fun be_bytes :: "nat \<Rightarrow> nat \<Rightarrow> bytes" where
  "be_bytes 0 v = []"
| "be_bytes (Suc n) v = be_bytes n (v div 256) @ [of_nat (v mod 256)]"

definition abi_word :: "nat \<Rightarrow> bytes" where
  "abi_word v = be_bytes 32 v"

definition abi_encode :: "bytes32 \<Rightarrow> uint24 \<Rightarrow> address \<Rightarrow> bytes" where
  "abi_encode proofHash proof sender =
     abi_word (unat proofHash) @ abi_word (unat proof) @ abi_word (unat sender)"

definition validatedProofHash :: "env \<Rightarrow> bytes32 \<Rightarrow> uint24 \<Rightarrow> address \<Rightarrow> bytes32" where
  "validatedProofHash e proofHash proof sender = keccak256 e (abi_encode proofHash proof sender)"

subsection \<open>Solidity's access to the two arrays\<close>

text \<open>
  \<^verbatim>\<open>validators[epoch][category][id]\<close>: the innermost array has 0x100 slots, the middle
  one 0x100 of those.
\<close>

definition validators_index :: "uint8 \<Rightarrow> uint8 \<Rightarrow> uint8 \<Rightarrow> nat" where
  "validators_index epoch category id' = unat epoch * 0x10000 + unat category * 0x100 + unat id'"

text \<open>
  \<^verbatim>\<open>disabledValidators[epoch][category][id]\<close>: the innermost \<^verbatim>\<open>bool[0x100]\<close> is packed
  into 0x100 / 32 = 8 slots, the middle array has 0x100 of those (0x800 slots); the flag
  is byte \<open>id mod 32\<close> of slot \<open>id div 32\<close> of its innermost array.
\<close>

definition disabledValidators_index :: "uint8 \<Rightarrow> uint8 \<Rightarrow> uint8 \<Rightarrow> nat" where
  "disabledValidators_index epoch category id' = unat epoch * 0x800 + unat category * 8 + unat id' div 32"

definition disabledValidators_byte :: "uint8 \<Rightarrow> nat" where
  "disabledValidators_byte id' = unat id' mod 32"

definition load_bool :: "bytes32 \<Rightarrow> nat \<Rightarrow> bool" where
  "load_bool w k = (drop_bit (8 * k) w AND 0xff \<noteq> 0)"

definition store_true :: "bytes32 \<Rightarrow> nat \<Rightarrow> bytes32" where
  "store_true w k = (w AND NOT (push_bit (8 * k) 0xff)) OR push_bit (8 * k) 1"

subsection \<open>The functions of the contract\<close>

text \<open>
  \<^verbatim>\<open>getValidatorAddress\<close> (lines 282-300). The assembly loads the words at
  \<^verbatim>\<open>add(_proof, disabledValidators_slot)\<close> and \<^verbatim>\<open>add(_proof, validators_slot)\<close>: the
  offset into either array is the value of \<^verbatim>\<open>_proof\<close>. The \<^verbatim>\<open>bool\<close> is the whole
  word, true when any bit of it is set.
\<close>

definition getValidatorAddress :: "ace_state \<Rightarrow> uint24 \<Rightarrow> error + address" where
  "getValidatorAddress st proof =
     (let isValidatorDisabled = (disabledValidators st (unat proof) \<noteq> 0);
          validatorAddress = validators st (unat proof);
          queryInvalid = (validatorAddress = 0 \<or> isValidatorDisabled)
      in if queryInvalid then
           (if validatorAddress = 0 then Inl UnknownValidator
            else if isValidatorDisabled then Inl DisabledValidator
            else Inr validatorAddress)
         else Inr validatorAddress)"

text \<open>
  The loop of \<^verbatim>\<open>validateProof\<close> (lines 128-132) over the sub-outputs, from index
  \<open>i\<close> on: the key is made of the hash of the sub-output, \<^verbatim>\<open>_proof\<close> and
  \<^verbatim>\<open>msg.sender\<close>.
\<close>

fun recordProofOutputs :: "env \<Rightarrow> address \<Rightarrow> uint24 \<Rightarrow> bytes list \<Rightarrow> ace_state \<Rightarrow> ace_state" where
  "recordProofOutputs e msg_sender proof [] st = st"
| "recordProofOutputs e msg_sender proof (out # outs) st =
     (let proofHash = keccak256 e out;
          key = validatedProofHash e proofHash proof msg_sender
      in recordProofOutputs e msg_sender proof outs
           (st\<lparr>validatedProofs := (validatedProofs st)(key := True)\<rparr>))"

text \<open>
  \<^verbatim>\<open>validateProof(uint24 _proof, address _sender, bytes calldata)\<close> (lines 79-135),
  called by \<open>msg_sender\<close>.
\<close>

definition validateProof ::
  "env \<Rightarrow> ace_state \<Rightarrow> address \<Rightarrow> uint24 \<Rightarrow> address \<Rightarrow> bytes \<Rightarrow> error + ace_state \<times> bytes list" where
  "validateProof e st msg_sender proof sender proofData =
     (case getValidatorAddress st proof of
        Inl err \<Rightarrow> Inl err
      | Inr validatorAddress \<Rightarrow>
          (case staticcall e validatorAddress st proofData sender (commonReferenceString st) of
             None \<Rightarrow> Inl ValidationRejected
           | Some proofOutputs \<Rightarrow>
               if drop_bit 8 proof AND 0xff = ucast (BALANCED e)
               then Inr (recordProofOutputs e msg_sender proof
                           (map (get proofOutputs) [0 ..< getLength proofOutputs]) st,
                         proofOutputs)
               else Inr (st, proofOutputs)))"

text \<open>
  \<^verbatim>\<open>clearProofByHashes(uint24 _proof, bytes32[] calldata _proofHashes)\<close> (lines 149-158),
  called by \<open>msg_sender\<close>: the loop, one hash after the other.
\<close>

fun clearProofByHashes :: "env \<Rightarrow> ace_state \<Rightarrow> address \<Rightarrow> uint24 \<Rightarrow> bytes32 list \<Rightarrow> error + ace_state" where
  "clearProofByHashes e st msg_sender proof [] = Inr st"
| "clearProofByHashes e st msg_sender proof (proofHash # rest) =
     (if proofHash = 0 then Inl InvalidFingerprint
      else let key = validatedProofHash e proofHash proof msg_sender
           in if \<not> validatedProofs st key then Inl NotPreviouslyValidated
              else clearProofByHashes e (st\<lparr>validatedProofs := (validatedProofs st)(key := False)\<rparr>)
                     msg_sender proof rest)"

text \<open>\<^verbatim>\<open>setCommonReferenceString\<close> (lines 165-169) and its getter (lines 277-279).\<close>

definition setCommonReferenceString :: "ace_state \<Rightarrow> address \<Rightarrow> bytes32 list \<Rightarrow> error + ace_state" where
  "setCommonReferenceString st msg_sender crs =
     (if \<not> isOwner st msg_sender then Inl Unauthorized
      else Inr (st\<lparr>commonReferenceString := crs\<rparr>))"

definition getCommonReferenceString :: "ace_state \<Rightarrow> bytes32 list" where
  "getCommonReferenceString st = commonReferenceString st"

text \<open>
  \<^verbatim>\<open>invalidateProof\<close> (lines 175-180). Both arrays are accessed through Solidity's
  index expressions here.
\<close>

definition invalidateProof :: "ace_state \<Rightarrow> address \<Rightarrow> uint24 \<Rightarrow> error + ace_state" where
  "invalidateProof st msg_sender proof =
     (if \<not> isOwner st msg_sender then Inl Unauthorized
      else case getProofComponents proof of (epoch, category, id') \<Rightarrow>
        if validators st (validators_index epoch category id') = 0 then Inl UnknownValidator
        else let slot = disabledValidators_index epoch category id'
             in Inr (st\<lparr>disabledValidators := (disabledValidators st)
                        (slot := store_true (disabledValidators st slot) (disabledValidators_byte id'))\<rparr>))"

text \<open>
  \<^verbatim>\<open>validateProofByHash\<close> (lines 191-243). The assembly loads the word at
  \<^verbatim>\<open>add(_proof, disabledValidators_slot)\<close>, hashes the three words
  \<^verbatim>\<open>_proofHash, _proof, _sender\<close> and loads \<^verbatim>\<open>validatedProofs\<close> at that key (the
  second hash, with \<^verbatim>\<open>validatedProofs_slot\<close>, is Solidity's address of a mapping's
  element).
\<close>

definition validateProofByHash :: "env \<Rightarrow> ace_state \<Rightarrow> uint24 \<Rightarrow> bytes32 \<Rightarrow> address \<Rightarrow> error + bool" where
  "validateProofByHash e st proof proofHash sender =
     (let isValidatorDisabled = (disabledValidators st (unat proof) \<noteq> 0);
          isProofValid = validatedProofs st (validatedProofHash e proofHash proof sender)
      in if isValidatorDisabled then Inl DisabledValidator else Inr isProofValid)"

text \<open>\<^verbatim>\<open>setProof\<close> (lines 251-261).\<close>

definition setProof :: "ace_state \<Rightarrow> address \<Rightarrow> uint24 \<Rightarrow> address \<Rightarrow> error + ace_state" where
  "setProof st msg_sender proof validatorAddress =
     (if \<not> isOwner st msg_sender then Inl Unauthorized
      else case getProofComponents proof of (epoch, category, id') \<Rightarrow>
        if \<not> epoch \<le> latestEpoch st then Inl EpochExceeded
        else if validators st (validators_index epoch category id') \<noteq> 0 then Inl AlreadyRegistered
        else Inr (st\<lparr>validators := (validators st)
                    (validators_index epoch category id' := validatorAddress)\<rparr>))"

text \<open>\<^verbatim>\<open>incrementLatestEpoch\<close> (lines 266-270).\<close>

definition incrementLatestEpoch :: "ace_state \<Rightarrow> address \<Rightarrow> error + ace_state" where
  "incrementLatestEpoch st msg_sender =
     (if \<not> isOwner st msg_sender then Inl Unauthorized
      else case SafeMath8_add (latestEpoch st) 1 of
             Inl err \<Rightarrow> Inl err
           | Inr n \<Rightarrow> Inr (st\<lparr>latestEpoch := n\<rparr>))"

subsection \<open>Transactions\<close>

text \<open>
  The storage after a call: that of before the call when it reverted, the one the call
  computed otherwise.
\<close>

definition commit :: "ace_state \<Rightarrow> error + ace_state \<Rightarrow> ace_state" where
  "commit st r = (case r of Inl err \<Rightarrow> st | Inr st' \<Rightarrow> st')"

text \<open>
  The state-changing external functions of the deployed contract: the six of ACE.sol,
  the two inherited from \<^verbatim>\<open>Ownable\<close>, and those inherited from \<^verbatim>\<open>NoteRegistry\<close>, a
  call of which is given by its calldata. \<open>run\<close> is a sequence of calls, each with its
  caller.
\<close>

datatype call =
    ValidateProof uint24 address bytes
  | ClearProofByHashes uint24 "bytes32 list"
  | SetCommonReferenceString "bytes32 list"
  | InvalidateProof uint24
  | SetProof uint24 address
  | IncrementLatestEpoch
  | TransferOwnership address
  | RenounceOwnership
  | NoteRegistry bytes

fun exec :: "env \<Rightarrow> ace_state \<Rightarrow> address \<Rightarrow> call \<Rightarrow> error + ace_state" where
  "exec e st msg_sender (ValidateProof proof sender proofData) =
     map_sum id fst (validateProof e st msg_sender proof sender proofData)"
| "exec e st msg_sender (ClearProofByHashes proof proofHashes) =
     clearProofByHashes e st msg_sender proof proofHashes"
| "exec e st msg_sender (SetCommonReferenceString crs) = setCommonReferenceString st msg_sender crs"
| "exec e st msg_sender (InvalidateProof proof) = invalidateProof st msg_sender proof"
| "exec e st msg_sender (SetProof proof validatorAddress) = setProof st msg_sender proof validatorAddress"
| "exec e st msg_sender IncrementLatestEpoch = incrementLatestEpoch st msg_sender"
| "exec e st msg_sender (TransferOwnership newOwner) = transferOwnership st msg_sender newOwner"
| "exec e st msg_sender RenounceOwnership = renounceOwnership st msg_sender"
| "exec e st msg_sender (NoteRegistry calldata) = noteRegistry e msg_sender calldata st"

fun run :: "env \<Rightarrow> ace_state \<Rightarrow> (address \<times> call) list \<Rightarrow> ace_state" where
  "run e st [] = st"
| "run e st ((msg_sender, c) # cs) = run e (commit st (exec e st msg_sender c)) cs"

subsection \<open>The two calls that write the ledger, step by step\<close>

text \<open>
  \<^verbatim>\<open>validateProof\<close> and \<^verbatim>\<open>clearProofByHashes\<close> once more, statement by statement, on
  the working storage of the call and with a log of what the call does to the world: each
  \<^verbatim>\<open>staticcall\<close>, with the working storage the callee can read at that time, and each
  write to \<^verbatim>\<open>validatedProofs\<close>. A statement that reverts stops the call and leaves the
  working storage as it is then, with the writes made so far.
\<close>

datatype event =
    StaticCall address ace_state
  | SStore bytes32 bool

type_synonym machine = "ace_state \<times> event list"

text \<open>\<^verbatim>\<open>validatedProofs[key] = v\<close>.\<close>

definition sstore_validatedProofs :: "bytes32 \<Rightarrow> bool \<Rightarrow> machine \<Rightarrow> machine" where
  "sstore_validatedProofs key v m =
     (case m of (w, log) \<Rightarrow>
        (w\<lparr>validatedProofs := (validatedProofs w)(key := v)\<rparr>, log @ [SStore key v]))"

text \<open>The \<^verbatim>\<open>staticcall\<close> of line 111: the callee reads the working storage.\<close>

definition do_staticcall ::
  "env \<Rightarrow> address \<Rightarrow> bytes \<Rightarrow> address \<Rightarrow> machine \<Rightarrow> bytes list option \<times> machine" where
  "do_staticcall e validatorAddress proofData sender m =
     (case m of (w, log) \<Rightarrow>
        (staticcall e validatorAddress w proofData sender (commonReferenceString w),
         (w, log @ [StaticCall validatorAddress w])))"

fun recordProofOutputs_steps :: "env \<Rightarrow> address \<Rightarrow> uint24 \<Rightarrow> bytes list \<Rightarrow> machine \<Rightarrow> machine" where
  "recordProofOutputs_steps e msg_sender proof [] m = m"
| "recordProofOutputs_steps e msg_sender proof (out # outs) m =
     (let proofHash = keccak256 e out;
          key = validatedProofHash e proofHash proof msg_sender
      in recordProofOutputs_steps e msg_sender proof outs (sstore_validatedProofs key True m))"

definition validateProof_steps ::
  "env \<Rightarrow> address \<Rightarrow> uint24 \<Rightarrow> address \<Rightarrow> bytes \<Rightarrow> machine \<Rightarrow> (error + bytes list) \<times> machine" where
  "validateProof_steps e msg_sender proof sender proofData m =
     (case getValidatorAddress (fst m) proof of
        Inl err \<Rightarrow> (Inl err, m)
      | Inr validatorAddress \<Rightarrow>
          (case do_staticcall e validatorAddress proofData sender m of
             (None, m1) \<Rightarrow> (Inl ValidationRejected, m1)
           | (Some proofOutputs, m1) \<Rightarrow>
               if drop_bit 8 proof AND 0xff = ucast (BALANCED e)
               then (Inr proofOutputs,
                     recordProofOutputs_steps e msg_sender proof
                       (map (get proofOutputs) [0 ..< getLength proofOutputs]) m1)
               else (Inr proofOutputs, m1)))"

fun clearProofByHashes_steps ::
  "env \<Rightarrow> address \<Rightarrow> uint24 \<Rightarrow> bytes32 list \<Rightarrow> machine \<Rightarrow> (error + unit) \<times> machine" where
  "clearProofByHashes_steps e msg_sender proof [] m = (Inr (), m)"
| "clearProofByHashes_steps e msg_sender proof (proofHash # rest) m =
     (if proofHash = 0 then (Inl InvalidFingerprint, m)
      else let key = validatedProofHash e proofHash proof msg_sender
           in if \<not> validatedProofs (fst m) key then (Inl NotPreviouslyValidated, m)
              else clearProofByHashes_steps e msg_sender proof rest
                     (sstore_validatedProofs key False m))"

text \<open>
  A transaction: the call starts on the storage of the contract with an empty log; when
  it reverts the EVM throws its working storage away and the contract keeps the storage
  of before the call, otherwise the working storage becomes the storage of the contract.
\<close>

definition transact :: "(machine \<Rightarrow> (error + 'a) \<times> machine) \<Rightarrow> ace_state \<Rightarrow> (error + 'a) \<times> ace_state" where
  "transact f st =
     (case f (st, []) of
        (Inl err, m) \<Rightarrow> (Inl err, st)
      | (Inr x, m) \<Rightarrow> (Inr x, fst m))"

subsection \<open>A concrete deployment\<close>

text \<open>
  The closed instances below run the contract on this deployment. \<open>test_state\<close> is the
  storage the constructor leaves (\<^verbatim>\<open>latestEpoch = 1\<close>, everything else zero), deployed by
  the account 0x01. In \<open>test_env\<close> two validator contracts exist: the one at 0xAA accepts
  any non-empty proof data \<open>d\<close> and returns the two sub-outputs \<open>d\<close> and \<open>d @ d\<close>,
  the one at 0xAB returns \<open>d\<close> twice; a call of any other address fails. A call of
  a function of \<^verbatim>\<open>NoteRegistry\<close> reverts on empty calldata and otherwise leaves the
  variables of ACE.sol as they are.
  \<open>BALANCED\<close> is 1. The hash is a stand-in that reads the bytes as a big-endian
  number and reduces it modulo 1000003: it is not keccak256, and the instances only use
  that it tells apart the few byte strings that occur in them.
\<close>

definition test_env :: env where
  "test_env =
     \<lparr>keccak256 = (\<lambda>bs. of_nat (foldl (\<lambda>a b. a * 256 + unat b) 0 bs mod 1000003)),
      staticcall = (\<lambda>a st d s crs.
         if a = 0xAA \<and> d \<noteq> [] then Some [d, d @ d]
         else if a = 0xAB \<and> d \<noteq> [] then Some [d, d]
         else None),
      BALANCED = 1,
      noteRegistry = (\<lambda>ms calldata st. if calldata = [] then Inl InheritedRevert else Inr st)\<rparr>"

definition test_state :: ace_state where
  "test_state =
     \<lparr>owner = 1, commonReferenceString = replicate 6 0, validators = (\<lambda>_. 0),
      disabledValidators = (\<lambda>_. 0), latestEpoch = 1, validatedProofs = (\<lambda>_. False)\<rparr>"

text \<open>
  The owner registers the validator 0xAA for the proof 0x010101 (epoch 1, category 1,
  id 1), and then invalidates that proof.
\<close>

definition registered_state :: ace_state where
  "registered_state = commit test_state (setProof test_state 1 0x010101 0xAA)"

definition invalidated_state :: ace_state where
  "invalidated_state = commit registered_state (invalidateProof registered_state 1 0x010101)"

text \<open>The owner registers the validator 0xAA for the proof 0x010201, of category 2.\<close>

definition utility_state :: ace_state where
  "utility_state = commit test_state (setProof test_state 1 0x010201 0xAA)"

text \<open>
  The account 0x05 has the proof 0x010101 validated, with 0x06 as \<^verbatim>\<open>_sender\<close> and the proof
  data \<open>[7]\<close>, and then clears the hash of the first sub-output.
\<close>

definition validated_state :: ace_state where
  "validated_state =
     commit registered_state (exec test_env registered_state 5 (ValidateProof 0x010101 6 [7]))"

definition cleared_state :: ace_state where
  "cleared_state =
     commit validated_state (clearProofByHashes test_env validated_state 5 0x010101 [7])"

text \<open>
  The same with the validator 0xAB, registered for the proof 0x010102, whose two
  sub-outputs are equal.
\<close>

definition twin_state :: ace_state where
  "twin_state = commit test_state (setProof test_state 1 0x010102 0xAB)"

definition twin_validated_state :: ace_state where
  "twin_validated_state =
     commit twin_state (exec test_env twin_state 5 (ValidateProof 0x010102 5 [7]))"

definition twin_cleared_state :: ace_state where
  "twin_cleared_state =
     commit twin_validated_state (clearProofByHashes test_env twin_validated_state 5 0x010102 [7])"

text \<open>
  The owner registers the validator 0xAA for the proof 0x000000 and invalidates it: the
  one identifier whose flag is in the slot that the assembly loads.
\<close>

definition disabled_state :: ace_state where
  "disabled_state =
     commit (commit test_state (setProof test_state 1 0 0xAA))
       (invalidateProof (commit test_state (setProof test_state 1 0 0xAA)) 1 0)"

text \<open>The owner registers the zero address for the proof 0x010101.\<close>

definition zero_registered_state :: ace_state where
  "zero_registered_state = commit test_state (setProof test_state 1 0x010101 0)"

section \<open>Properties\<close>

subsection \<open>The proof identifier and the two arrays\<close>

lemma mask_ff: "(0xff :: 24 word) = mask 8"
  by (simp add: mask_eq_exp_minus_1)

lemma unat_byte: "unat (ucast (w AND 0xff :: 24 word) :: 8 word) = unat w mod 256"
  by (simp add: mask_ff unsigned_ucast_eq unsigned_take_bit_eq take_bit_eq_mod unat_mod
      flip: take_bit_eq_mask)

lemma unat_and_ff: "unat (w AND 0xff :: 24 word) = unat w mod 256"
  by (simp add: mask_ff unsigned_take_bit_eq take_bit_eq_mod unat_mod flip: take_bit_eq_mask)

lemma unat_ucast_8_24: "unat (ucast (b :: 8 word) :: 24 word) = unat b"
proof -
  have "unat b < 2 ^ 8" using unsigned_less [of b] by simp
  then show ?thesis
    by (simp add: unsigned_ucast_eq unsigned_take_bit_eq take_bit_eq_mod)
qed

lemma unat_drop_16: "unat (drop_bit 16 (p :: 24 word)) = unat p div 65536"
  by (simp add: unat_drop_bit_eq drop_bit_eq_div unat_div)

lemma unat_drop_8: "unat (drop_bit 8 (p :: 24 word)) = unat p div 256"
  by (simp add: unat_drop_bit_eq drop_bit_eq_div unat_div)

lemma split_bytes:
  fixes n :: nat
  assumes "n < 2 ^ 24"
  shows "n div 65536 mod 256 = n div 65536"
    and "n = (n div 65536 * 256 + n div 256 mod 256) * 256 + n mod 256"
proof -
  from assms have "n div 65536 < 256"
    by (simp add: less_mult_imp_div_less)
  then show "n div 65536 mod 256 = n div 65536" by simp
  have a: "n div 256 div 256 = n div 65536"
    by (simp add: div_mult2_eq [symmetric])
  have "n div 256 = n div 256 div 256 * 256 + n div 256 mod 256" by simp
  with a have "n div 256 = n div 65536 * 256 + n div 256 mod 256" by simp
  moreover have "n = n div 256 * 256 + n mod 256" by simp
  ultimately show "n = (n div 65536 * 256 + n div 256 mod 256) * 256 + n mod 256" by simp
qed

text \<open>
  The slot of \<^verbatim>\<open>validators[epoch][category][id]\<close> is the value of the proof identifier,
  as the assembly takes it to be.
\<close>

lemma validators_index_proof:
  "(case getProofComponents p of (e, c, i) \<Rightarrow> validators_index e c i) = unat p"
proof -
  have b: "unat p < 2 ^ 24" using unsigned_less [of p] by simp
  define n where "n = unat p"
  from b have 1: "n div 65536 mod 256 = n div 65536"
    and 2: "n = (n div 65536 * 256 + n div 256 mod 256) * 256 + n mod 256"
    unfolding n_def by (rule split_bytes)+
  have "n div 65536 * 65536 + n div 256 mod 256 * 256 + n mod 256 = n"
    using 2 by (simp add: algebra_simps)
  then show ?thesis
    by (simp add: getProofComponents_def validators_index_def unat_byte unat_drop_16
        unat_drop_8 1 flip: n_def)
qed

text \<open>
  The slot of \<^verbatim>\<open>disabledValidators[epoch][category][id]\<close> is not: the flag of the proof
  \<open>p\<close> is byte \<open>p mod 32\<close> of the slot \<open>p div 32\<close>.
\<close>

lemma disabledValidators_index_proof:
  "(case getProofComponents p of (e, c, i) \<Rightarrow> disabledValidators_index e c i) = unat p div 32"
proof -
  have b: "unat p < 2 ^ 24" using unsigned_less [of p] by simp
  define n where "n = unat p"
  define h where "h = n div 65536 * 256 + n div 256 mod 256"
  from b have 1: "n div 65536 mod 256 = n div 65536"
    and 2: "n = h * 256 + n mod 256"
    unfolding n_def h_def by (rule split_bytes)+
  have "n div 32 = (n mod 256 + h * 8 * 32) div 32"
    using 2 by (simp add: algebra_simps)
  also have "\<dots> = n mod 256 div 32 + h * 8"
    by simp
  finally have "n div 65536 * 2048 + n div 256 mod 256 * 8 + n mod 256 div 32 = n div 32"
    by (simp add: h_def algebra_simps)
  then show ?thesis
    by (simp add: getProofComponents_def disabledValidators_index_def unat_byte unat_drop_16
        unat_drop_8 1 flip: n_def)
qed

lemma disabledValidators_byte_proof:
  "(case getProofComponents p of (e, c, i) \<Rightarrow> disabledValidators_byte i) = unat p mod 32"
proof -
  have "unat p mod 256 mod 32 = unat p mod 32"
    by (rule mod_mod_cancel) simp
  then show ?thesis
    by (simp add: getProofComponents_def disabledValidators_byte_def unat_byte)
qed

text \<open>
  The test of \<^verbatim>\<open>validateProof\<close>, \<^verbatim>\<open>((_proof >> 8) & 0xff) == uint8(ProofCategory.BALANCED)\<close>,
  compares the category of the identifier.
\<close>

lemma category_test:
  "(drop_bit 8 (p :: 24 word) AND 0xff = ucast (b :: 8 word)) \<longleftrightarrow>
   (fst (snd (getProofComponents p)) = b)"
  by (simp add: getProofComponents_def word_unat_eq_iff unat_byte unat_and_ff unat_ucast_8_24)

subsection \<open>The functions, rewritten\<close>

lemma map_get: "map (get outs) [0 ..< getLength outs] = outs"
proof -
  have "get outs = (!) outs" by (rule ext) (simp add: get_def)
  then show ?thesis by (simp add: getLength_def map_nth)
qed

lemma getValidatorAddress_eq:
  "getValidatorAddress st p =
     (if validators st (unat p) = 0 then Inl UnknownValidator
      else if disabledValidators st (unat p) \<noteq> 0 then Inl DisabledValidator
      else Inr (validators st (unat p)))"
  by (simp add: getValidatorAddress_def Let_def)

lemma recordProofOutputs_frame:
  "owner (recordProofOutputs e ms p outs st) = owner st \<and>
   commonReferenceString (recordProofOutputs e ms p outs st) = commonReferenceString st \<and>
   validators (recordProofOutputs e ms p outs st) = validators st \<and>
   disabledValidators (recordProofOutputs e ms p outs st) = disabledValidators st \<and>
   latestEpoch (recordProofOutputs e ms p outs st) = latestEpoch st"
  by (induction outs arbitrary: st) (simp_all add: Let_def)

lemma recordProofOutputs_ledger:
  "validatedProofs (recordProofOutputs e ms p outs st) k \<longleftrightarrow>
     validatedProofs st k \<or> k \<in> (\<lambda>out. validatedProofHash e (keccak256 e out) p ms) ` set outs"
  by (induction outs arbitrary: st) (auto simp: Let_def)

lemma validateProof_eq:
  "validateProof e st ms p s d =
     (if validators st (unat p) = 0 then Inl UnknownValidator
      else if disabledValidators st (unat p) \<noteq> 0 then Inl DisabledValidator
      else case staticcall e (validators st (unat p)) st d s (commonReferenceString st) of
             None \<Rightarrow> Inl ValidationRejected
           | Some outs \<Rightarrow>
               if fst (snd (getProofComponents p)) = BALANCED e
               then Inr (recordProofOutputs e ms p outs st, outs)
               else Inr (st, outs))"
  by (simp add: validateProof_def getValidatorAddress_eq map_get category_test split: option.split)

lemma setProof_eq:
  "setProof st ms p h =
     (if ms \<noteq> owner st then Inl Unauthorized
      else if \<not> fst (getProofComponents p) \<le> latestEpoch st then Inl EpochExceeded
      else if validators st (unat p) \<noteq> 0 then Inl AlreadyRegistered
      else Inr (st\<lparr>validators := (validators st)(unat p := h)\<rparr>))"
proof -
  obtain ep c i where gp: "getProofComponents p = (ep, c, i)"
    by (cases "getProofComponents p") auto
  with validators_index_proof [of p] have "validators_index ep c i = unat p" by simp
  with gp show ?thesis by (simp add: setProof_def isOwner_def)
qed

lemma invalidateProof_eq:
  "invalidateProof st ms p =
     (if ms \<noteq> owner st then Inl Unauthorized
      else if validators st (unat p) = 0 then Inl UnknownValidator
      else Inr (st\<lparr>disabledValidators := (disabledValidators st)
                  (unat p div 32 := store_true (disabledValidators st (unat p div 32)) (unat p mod 32))\<rparr>))"
proof -
  obtain ep c i where gp: "getProofComponents p = (ep, c, i)"
    by (cases "getProofComponents p") auto
  with validators_index_proof [of p] disabledValidators_index_proof [of p]
    disabledValidators_byte_proof [of p]
  have "validators_index ep c i = unat p" "disabledValidators_index ep c i = unat p div 32"
    "disabledValidators_byte i = unat p mod 32" by simp_all
  with gp show ?thesis by (simp add: invalidateProof_def isOwner_def Let_def)
qed

lemma validateProofByHash_eq:
  "validateProofByHash e st p h s =
     (if disabledValidators st (unat p) \<noteq> 0 then Inl DisabledValidator
      else Inr (validatedProofs st (validatedProofHash e h p s)))"
  by (simp add: validateProofByHash_def Let_def)

lemma inc_no_wrap: "(a :: 8 word) \<le> a + 1 \<longleftrightarrow> a \<noteq> 255"
proof -
  have "unat a < 256" using unsigned_less [of a] by simp
  moreover have "a = 255 \<longleftrightarrow> unat a = 255" by (simp add: word_unat_eq_iff)
  ultimately show ?thesis by (simp add: no_plus_overflow_unat_size word_size) arith
qed

lemma unat_inc: "(a :: 8 word) \<noteq> 255 \<Longrightarrow> unat (a + 1) = unat a + 1"
  using inc_no_wrap [of a] by (simp add: no_plus_overflow_unat_size word_size unat_add_lem [THEN iffD1])

lemma incrementLatestEpoch_eq:
  "incrementLatestEpoch st ms =
     (if ms \<noteq> owner st then Inl Unauthorized
      else if latestEpoch st = 255 then Inl Overflow
      else Inr (st\<lparr>latestEpoch := latestEpoch st + 1\<rparr>))"
  by (simp add: incrementLatestEpoch_def isOwner_def SafeMath8_add_def Let_def inc_no_wrap)

lemma clear_frame:
  "clearProofByHashes e st ms p hs = Inr st' \<Longrightarrow>
     owner st' = owner st \<and> commonReferenceString st' = commonReferenceString st \<and>
     validators st' = validators st \<and> disabledValidators st' = disabledValidators st \<and>
     latestEpoch st' = latestEpoch st"
  by (induction hs arbitrary: st) (auto simp: Let_def split: if_splits)

lemma clear_ledger:
  "clearProofByHashes e st ms p hs = Inr st' \<Longrightarrow>
     validatedProofs st' k \<longleftrightarrow>
       validatedProofs st k \<and> k \<notin> (\<lambda>h. validatedProofHash e h p ms) ` set hs"
  by (induction hs arbitrary: st) (auto simp: Let_def split: if_splits)

lemma clear_succeeds_iff:
  "(\<exists>st'. clearProofByHashes e st ms p hs = Inr st') \<longleftrightarrow>
     (\<forall>h \<in> set hs. h \<noteq> 0 \<and> validatedProofs st (validatedProofHash e h p ms)) \<and>
     distinct (map (\<lambda>h. validatedProofHash e h p ms) hs)"
proof (induction hs arbitrary: st)
  case Nil
  then show ?case by simp
next
  case (Cons h hs)
  show ?case
    by (simp add: Let_def Cons.IH) (auto simp: image_iff)
qed

lemma clear_error:
  "clearProofByHashes e st ms p hs = Inl err \<Longrightarrow>
     err = InvalidFingerprint \<or> err = NotPreviouslyValidated"
  by (induction hs arbitrary: st) (auto simp: Let_def split: if_splits)

text \<open>
  \<^verbatim>\<open>invalidateProof\<close> writes the flag of the proof \<open>p\<close> into the slot \<open>p div 32\<close>; the
  slot \<open>p\<close>, which \<^verbatim>\<open>getValidatorAddress\<close> and \<^verbatim>\<open>validateProofByHash\<close> load, is
  another one unless \<open>p\<close> is 0.
\<close>

lemma invalidateProof_other_slot:
  assumes "invalidateProof st ms p = Inr st'" and "p \<noteq> 0"
  shows "disabledValidators st' (unat p) = disabledValidators st (unat p)"
proof -
  from assms(2) have "unat p \<noteq> 0" by (simp add: unat_eq_0)
  then have "unat p div 32 \<noteq> unat p" by (simp add: div_eq_dividend_iff)
  with assms(1) show ?thesis
    by (auto simp: invalidateProof_eq split: if_splits)
qed

subsection \<open>What no call changes\<close>

text \<open>
  No call lowers \<^verbatim>\<open>latestEpoch\<close> or changes a slot of \<^verbatim>\<open>validators\<close> that holds an
  address other than zero, provided the functions inherited from \<^verbatim>\<open>NoteRegistry\<close> leave
  these two variables alone. (They are declared in ACE.sol, and a base contract cannot
  name a variable of the contract that inherits it.) The owner can change.
\<close>

lemma exec_frame:
  assumes frame: "\<forall>ms x w w'. noteRegistry e ms x w = Inr w' \<longrightarrow>
                    validators w' = validators w \<and> latestEpoch w' = latestEpoch w"
      and ex: "exec e st ms c = Inr st'"
  shows "latestEpoch st \<le> latestEpoch st' \<and>
         (validators st k \<noteq> 0 \<longrightarrow> validators st' k = validators st k)"
proof (cases c)
  case (ValidateProof p s d)
  with ex show ?thesis
    using recordProofOutputs_frame [of e ms p _ st]
    by (auto simp: validateProof_eq split: if_splits option.splits)
next
  case (ClearProofByHashes p hs)
  with ex show ?thesis
    using clear_frame [of e st ms p hs st'] by simp
next
  case (SetCommonReferenceString crs)
  with ex show ?thesis
    by (auto simp: setCommonReferenceString_def split: if_splits)
next
  case (InvalidateProof p)
  with ex show ?thesis
    by (auto simp: invalidateProof_eq split: if_splits)
next
  case (SetProof p h)
  with ex show ?thesis
    by (auto simp: setProof_eq split: if_splits)
next
  case IncrementLatestEpoch
  with ex show ?thesis
    by (auto simp: incrementLatestEpoch_eq inc_no_wrap split: if_splits)
next
  case (TransferOwnership newOwner)
  with ex show ?thesis
    by (auto simp: transferOwnership_def split: if_splits)
next
  case RenounceOwnership
  with ex show ?thesis
    by (auto simp: renounceOwnership_def split: if_splits)
next
  case (NoteRegistry calldata)
  with ex have "noteRegistry e ms calldata st = Inr st'" by simp
  with frame have "validators st' = validators st \<and> latestEpoch st' = latestEpoch st"
    by blast
  then show ?thesis by simp
qed

lemma commit_frame:
  assumes "\<forall>ms x w w'. noteRegistry e ms x w = Inr w' \<longrightarrow>
             validators w' = validators w \<and> latestEpoch w' = latestEpoch w"
  shows "latestEpoch st \<le> latestEpoch (commit st (exec e st ms c)) \<and>
         (validators st k \<noteq> 0 \<longrightarrow> validators (commit st (exec e st ms c)) k = validators st k)"
proof (cases "exec e st ms c")
  case (Inl err)
  then show ?thesis by (simp add: commit_def)
next
  case (Inr st')
  with exec_frame [OF assms Inr, of k] show ?thesis by (simp add: commit_def)
qed

lemma run_frame:
  assumes "\<forall>ms x w w'. noteRegistry e ms x w = Inr w' \<longrightarrow>
             validators w' = validators w \<and> latestEpoch w' = latestEpoch w"
  shows "latestEpoch st \<le> latestEpoch (run e st cs) \<and>
         (validators st k \<noteq> 0 \<longrightarrow> validators (run e st cs) k = validators st k)"
proof (induction cs arbitrary: st)
  case Nil
  then show ?case by simp
next
  case (Cons c cs)
  obtain ms c' where c: "c = (ms, c')" by (cases c)
  from commit_frame [OF assms, of st ms c' k] Cons.IH [of "commit st (exec e st ms c')"]
  show ?case by (auto simp: c)
qed

subsection \<open>The step-by-step calls and the functions\<close>

lemma recordProofOutputs_steps_eq:
  "recordProofOutputs_steps e ms p outs (w, log) =
     (recordProofOutputs e ms p outs w,
      log @ map (\<lambda>out. SStore (validatedProofHash e (keccak256 e out) p ms) True) outs)"
  by (induction outs arbitrary: w log) (simp_all add: Let_def sstore_validatedProofs_def)

lemma validateProof_steps_eq:
  "validateProof_steps e ms p s d (st, []) =
     (if validators st (unat p) = 0 then (Inl UnknownValidator, st, [])
      else if disabledValidators st (unat p) \<noteq> 0 then (Inl DisabledValidator, st, [])
      else case staticcall e (validators st (unat p)) st d s (commonReferenceString st) of
             None \<Rightarrow> (Inl ValidationRejected, st, [StaticCall (validators st (unat p)) st])
           | Some outs \<Rightarrow>
               if fst (snd (getProofComponents p)) = BALANCED e
               then (Inr outs, recordProofOutputs e ms p outs st,
                     StaticCall (validators st (unat p)) st #
                     map (\<lambda>out. SStore (validatedProofHash e (keccak256 e out) p ms) True) outs)
               else (Inr outs, st, [StaticCall (validators st (unat p)) st]))"
  by (simp add: validateProof_steps_def getValidatorAddress_eq do_staticcall_def map_get
      category_test recordProofOutputs_steps_eq split: option.split)

lemma validateProof_transact:
  "validateProof e st ms p s d =
     (case transact (validateProof_steps e ms p s d) st of
        (Inl err, w) \<Rightarrow> Inl err
      | (Inr outs, w) \<Rightarrow> Inr (w, outs))"
  by (simp add: transact_def validateProof_steps_eq validateProof_eq split: option.split)

lemma clearProofByHashes_steps_result:
  "clearProofByHashes e w ms p hs =
     (case clearProofByHashes_steps e ms p hs (w, log) of
        (Inl err, m) \<Rightarrow> Inl err
      | (Inr u, m) \<Rightarrow> Inr (fst m))"
  by (induction hs arbitrary: w log) (simp_all add: Let_def sstore_validatedProofs_def)

lemma clearProofByHashes_transact:
  "clearProofByHashes e st ms p hs =
     (case transact (clearProofByHashes_steps e ms p hs) st of
        (Inl err, w) \<Rightarrow> Inl err
      | (Inr u, w) \<Rightarrow> Inr w)"
  using clearProofByHashes_steps_result [of e st ms p hs "[]"]
  by (simp add: transact_def split: prod.splits sum.splits)

lemma clearProofByHashes_steps_log:
  "clearProofByHashes_steps e ms p hs (w, log) = (r, w', log') \<Longrightarrow>
     \<exists>l. log' = log @ l \<and>
         set l \<subseteq> (\<lambda>h. SStore (validatedProofHash e h p ms) False) ` set hs \<and>
         (\<forall>k. validatedProofs w' k \<longleftrightarrow> validatedProofs w k \<and> SStore k False \<notin> set l)"
proof (induction hs arbitrary: w log)
  case Nil
  then show ?case by simp
next
  case (Cons h hs)
  define key where "key = validatedProofHash e h p ms"
  show ?case
  proof (cases "h \<noteq> 0 \<and> validatedProofs w key")
    case False
    with Cons.prems show ?thesis by (auto simp: Let_def key_def split: if_splits)
  next
    case True
    with Cons.prems
    have "clearProofByHashes_steps e ms p hs
            (w\<lparr>validatedProofs := (validatedProofs w)(key := False)\<rparr>, log @ [SStore key False]) =
          (r, w', log')"
      by (simp add: Let_def key_def sstore_validatedProofs_def)
    from Cons.IH [OF this] obtain l where l: "log' = (log @ [SStore key False]) @ l"
      "set l \<subseteq> (\<lambda>h. SStore (validatedProofHash e h p ms) False) ` set hs"
      "\<forall>k. validatedProofs w' k \<longleftrightarrow>
             (validatedProofs w k \<and> k \<noteq> key) \<and> SStore k False \<notin> set l"
      by fastforce
    have "log' = log @ (SStore key False # l)" using l(1) by simp
    moreover have "set (SStore key False # l) \<subseteq>
        (\<lambda>h. SStore (validatedProofHash e h p ms) False) ` set (h # hs)"
      using l(2) by (auto simp: key_def)
    moreover have "\<forall>k. validatedProofs w' k \<longleftrightarrow>
        validatedProofs w k \<and> SStore k False \<notin> set (SStore key False # l)"
      using l(3) by auto
    ultimately show ?thesis by blast
  qed
qed

subsection \<open>The concrete deployment, evaluated\<close>

lemma be_bytes_value:
  "foldl (\<lambda>a b. a * 256 + unat (b :: 8 word)) acc (be_bytes n v) = acc * 256 ^ n + v mod 256 ^ n"
proof (induction n arbitrary: v acc)
  case 0
  then show ?case by simp
next
  case (Suc n)
  have "unat (of_nat (v mod 256) :: 8 word) = v mod 256"
    by (simp add: unat_of_nat)
  moreover have "v div 256 mod 256 ^ n * 256 + v mod 256 = v mod (256 * 256 ^ n)"
    by (simp add: mod_mult2_eq)
  ultimately show ?case
    using Suc.IH [of acc "v div 256"] by (simp add: algebra_simps)
qed

lemma test_key:
  "validatedProofHash test_env h p a =
     of_nat ((unat h * 2 ^ 512 + unat p * 2 ^ 256 + unat a) mod 1000003)"
proof -
  have "unat h < 2 ^ 256" using unsigned_less [of h] by simp
  then have h: "unat h mod 256 ^ 32 = unat h" by simp
  have "unat p < 2 ^ 24" using unsigned_less [of p] by simp
  then have p: "unat p mod 256 ^ 32 = unat p" by simp
  have "unat a < 2 ^ 160" using unsigned_less [of a] by simp
  then have a: "unat a mod 256 ^ 32 = unat a" by simp
  have "foldl (\<lambda>a b. a * 256 + unat b) 0 (abi_encode h p a) =
          (unat h * 256 ^ 32 + unat p) * 256 ^ 32 + unat a"
    by (simp only: abi_encode_def abi_word_def foldl_append be_bytes_value h p a) simp
  also have "\<dots> = unat h * 2 ^ 512 + unat p * 2 ^ 256 + unat a"
    by (simp add: algebra_simps)
  finally show ?thesis
    by (simp add: validatedProofHash_def test_env_def)
qed

lemma test_env_fields:
  "BALANCED test_env = 1"
  "staticcall test_env 0xAA st d s crs = (if d \<noteq> [] then Some [d, d @ d] else None)"
  "staticcall test_env 0xAB st d s crs = (if d \<noteq> [] then Some [d, d] else None)"
  by (simp_all add: test_env_def)

lemma test_hashes: "keccak256 test_env [7] = 7" "keccak256 test_env [7, 7] = 1799"
  by (simp_all add: test_env_def)

lemma test_keys:
  "validatedProofHash test_env 7 0x010101 5 = 225835"
  "validatedProofHash test_env 1799 0x010101 5 = 593248"
  "validatedProofHash test_env 7 0x010101 6 = 225836"
  "validatedProofHash test_env 1799 0x010101 6 = 593249"
  by (simp_all add: test_key)

lemma registered_state_eq:
  "setProof test_state 1 0x010101 0xAA = Inr registered_state"
  "registered_state = test_state\<lparr>validators := (\<lambda>_. 0)(65793 := 0xAA)\<rparr>"
  by (simp_all add: registered_state_def commit_def setProof_eq test_state_def
      getProofComponents_def)

lemma invalidated_state_eq:
  "invalidateProof registered_state 1 0x010101 = Inr invalidated_state"
  "invalidated_state = registered_state\<lparr>disabledValidators := (\<lambda>_. 0)(2056 := 0x100)\<rparr>"
  by (simp_all add: invalidated_state_def commit_def invalidateProof_eq registered_state_eq(2)
      test_state_def store_true_def)

lemma utility_state_eq:
  "setProof test_state 1 0x010201 0xAA = Inr utility_state"
  "utility_state = test_state\<lparr>validators := (\<lambda>_. 0)(66049 := 0xAA)\<rparr>"
  by (simp_all add: utility_state_def commit_def setProof_eq test_state_def
      getProofComponents_def)

lemma validated_state_eq:
  "validateProof test_env registered_state 5 0x010101 6 [7] = Inr (validated_state, [[7], [7, 7]])"
  "validated_state =
     registered_state\<lparr>validatedProofs := (\<lambda>_. False)(225835 := True, 593248 := True)\<rparr>"
proof -
  have v: "validateProof test_env registered_state 5 0x010101 6 [7] =
      Inr (registered_state\<lparr>validatedProofs := (\<lambda>_. False)(225835 := True, 593248 := True)\<rparr>,
           [[7], [7, 7]])"
    by (simp add: validateProof_eq registered_state_eq(2) test_state_def getProofComponents_def
        test_hashes test_keys test_env_fields Let_def)
  then show "validated_state =
     registered_state\<lparr>validatedProofs := (\<lambda>_. False)(225835 := True, 593248 := True)\<rparr>"
    by (simp add: validated_state_def commit_def)
  with v show "validateProof test_env registered_state 5 0x010101 6 [7] =
     Inr (validated_state, [[7], [7, 7]])"
    by simp
qed

lemma cleared_state_eq:
  "clearProofByHashes test_env validated_state 5 0x010101 [7] = Inr cleared_state"
  "cleared_state =
     registered_state\<lparr>validatedProofs := (\<lambda>_. False)(225835 := False, 593248 := True)\<rparr>"
proof -
  have c: "clearProofByHashes test_env validated_state 5 0x010101 [7] =
      Inr (registered_state\<lparr>validatedProofs := (\<lambda>_. False)(225835 := False, 593248 := True)\<rparr>)"
    by (simp add: validated_state_eq(2) test_keys Let_def fun_upd_twist)
  then show "cleared_state =
     registered_state\<lparr>validatedProofs := (\<lambda>_. False)(225835 := False, 593248 := True)\<rparr>"
    by (simp add: cleared_state_def commit_def)
  with c show "clearProofByHashes test_env validated_state 5 0x010101 [7] = Inr cleared_state"
    by simp
qed

lemma twin_state_eq:
  "setProof test_state 1 0x010102 0xAB = Inr twin_state"
  "twin_state = test_state\<lparr>validators := (\<lambda>_. 0)(65794 := 0xAB)\<rparr>"
  by (simp_all add: twin_state_def commit_def setProof_eq test_state_def getProofComponents_def)

lemma twin_key: "validatedProofHash test_env 7 0x010102 5 = 382484"
  by (simp add: test_key)

lemma twin_validated_state_eq:
  "validateProof test_env twin_state 5 0x010102 5 [7] = Inr (twin_validated_state, [[7], [7]])"
  "twin_validated_state = twin_state\<lparr>validatedProofs := (\<lambda>_. False)(382484 := True)\<rparr>"
proof -
  have v: "validateProof test_env twin_state 5 0x010102 5 [7] =
      Inr (twin_state\<lparr>validatedProofs := (\<lambda>_. False)(382484 := True)\<rparr>, [[7], [7]])"
    by (simp add: validateProof_eq twin_state_eq(2) test_state_def getProofComponents_def
        test_hashes twin_key test_env_fields Let_def)
  then show "twin_validated_state = twin_state\<lparr>validatedProofs := (\<lambda>_. False)(382484 := True)\<rparr>"
    by (simp add: twin_validated_state_def commit_def)
  with v show "validateProof test_env twin_state 5 0x010102 5 [7] =
      Inr (twin_validated_state, [[7], [7]])"
    by simp
qed

lemma twin_cleared_state_eq:
  "clearProofByHashes test_env twin_validated_state 5 0x010102 [7] = Inr twin_cleared_state"
  "twin_cleared_state = twin_state\<lparr>validatedProofs := (\<lambda>_. False)(382484 := False)\<rparr>"
proof -
  have c: "clearProofByHashes test_env twin_validated_state 5 0x010102 [7] =
      Inr (twin_state\<lparr>validatedProofs := (\<lambda>_. False)(382484 := False)\<rparr>)"
    by (simp add: twin_validated_state_eq(2) twin_key Let_def)
  then show "twin_cleared_state = twin_state\<lparr>validatedProofs := (\<lambda>_. False)(382484 := False)\<rparr>"
    by (simp add: twin_cleared_state_def commit_def)
  with c show "clearProofByHashes test_env twin_validated_state 5 0x010102 [7] = Inr twin_cleared_state"
    by simp
qed

lemma disabled_state_eq:
  "disabled_state =
     test_state\<lparr>validators := (\<lambda>_. 0)(0 := 0xAA), disabledValidators := (\<lambda>_. 0)(0 := 1)\<rparr>"
  by (simp add: disabled_state_def commit_def setProof_eq invalidateProof_eq test_state_def
      getProofComponents_def store_true_def)

lemma zero_registered_state_eq:
  "setProof test_state 1 0x010101 0 = Inr zero_registered_state"
  "zero_registered_state = test_state\<lparr>validators := (\<lambda>_. 0)(65793 := 0)\<rparr>"
  by (simp_all add: zero_registered_state_def commit_def setProof_eq test_state_def
      getProofComponents_def)

section \<open>The claims\<close>

subsection \<open>C1: a failed call changes nothing\<close>

text \<open>
  C1. Each way of failing that the claim names makes the call fail and leaves the storage
  of the contract as it was: \<^verbatim>\<open>validateProof\<close> of an identifier with no validator, of
  one whose flag is read as set, and of one whose validator rejects the proof; and
  \<^verbatim>\<open>clearProofByHashes\<close> of a list in which some hash is zero, is not recorded as
  validated, or occurs twice. When \<^verbatim>\<open>clearProofByHashes\<close> fails, its working storage
  holds the records it has cleared until then, which are exactly those of its log, and
  the transaction throws them away. A \<^verbatim>\<open>validateProof\<close> that fails in one of its three
  ways has written nothing at all, since each of them comes before the loop. In the log of a \<^verbatim>\<open>validateProof\<close> that succeeds the static call is the first
  event, it was made on the storage of before the call and returned the outputs, and
  every other event is the write of a ledger record of one of the outputs; the owner,
  the reference string, the two arrays and the epoch are unchanged. The last two
  conjuncts say that the step-by-step calls are \<^verbatim>\<open>validateProof\<close> and
  \<^verbatim>\<open>clearProofByHashes\<close> as the other claims have them.
\<close>

theorem validate_and_clear_atomic:
  "(validators st (unat p) = 0 \<longrightarrow>
      transact (validateProof_steps e ms p s d) st = (Inl UnknownValidator, st)) \<and>
   (validators st (unat p) \<noteq> 0 \<and> disabledValidators st (unat p) \<noteq> 0 \<longrightarrow>
      transact (validateProof_steps e ms p s d) st = (Inl DisabledValidator, st)) \<and>
   (getValidatorAddress st p = Inr v \<and>
    staticcall e v st d s (commonReferenceString st) = None \<longrightarrow>
      transact (validateProof_steps e ms p s d) st = (Inl ValidationRejected, st)) \<and>
   (\<not> ((\<forall>h \<in> set hs. h \<noteq> 0 \<and> validatedProofs st (validatedProofHash e h p ms)) \<and>
        distinct (map (\<lambda>h. validatedProofHash e h p ms) hs)) \<longrightarrow>
      (\<exists>err. transact (clearProofByHashes_steps e ms p hs) st = (Inl err, st))) \<and>
   (clearProofByHashes_steps e ms p hs (st, []) = (Inl err, w, log) \<longrightarrow>
      set log \<subseteq> (\<lambda>h. SStore (validatedProofHash e h p ms) False) ` set hs \<and>
      (\<forall>k. validatedProofs w k \<longleftrightarrow> validatedProofs st k \<and> SStore k False \<notin> set log) \<and>
      transact (clearProofByHashes_steps e ms p hs) st = (Inl err, st)) \<and>
   (validateProof_steps e ms p s d (st, []) = (Inl err, w, log) \<longrightarrow>
      w = st \<and> (\<forall>k b. SStore k b \<notin> set log) \<and>
      transact (validateProof_steps e ms p s d) st = (Inl err, st)) \<and>
   (validateProof_steps e ms p s d (st, []) = (Inr outs, w, log) \<longrightarrow>
      (\<exists>v. getValidatorAddress st p = Inr v \<and>
           staticcall e v st d s (commonReferenceString st) = Some outs \<and>
           log = StaticCall v st #
                 map (\<lambda>out. SStore (validatedProofHash e (keccak256 e out) p ms) True)
                   (if fst (snd (getProofComponents p)) = BALANCED e then outs else [])) \<and>
      owner w = owner st \<and> commonReferenceString w = commonReferenceString st \<and>
      validators w = validators st \<and> disabledValidators w = disabledValidators st \<and>
      latestEpoch w = latestEpoch st \<and>
      transact (validateProof_steps e ms p s d) st = (Inr outs, w)) \<and>
   validateProof e st ms p s d =
     (case transact (validateProof_steps e ms p s d) st of
        (Inl err, w) \<Rightarrow> Inl err
      | (Inr outs, w) \<Rightarrow> Inr (w, outs)) \<and>
   clearProofByHashes e st ms p hs =
     (case transact (clearProofByHashes_steps e ms p hs) st of
        (Inl err, w) \<Rightarrow> Inl err
      | (Inr u, w) \<Rightarrow> Inr w)"
proof -
  have a: "validators st (unat p) = 0 \<longrightarrow>
      transact (validateProof_steps e ms p s d) st = (Inl UnknownValidator, st)"
    by (simp add: transact_def validateProof_steps_eq)
  have b: "validators st (unat p) \<noteq> 0 \<and> disabledValidators st (unat p) \<noteq> 0 \<longrightarrow>
      transact (validateProof_steps e ms p s d) st = (Inl DisabledValidator, st)"
    by (simp add: transact_def validateProof_steps_eq)
  have c: "getValidatorAddress st p = Inr v \<and>
    staticcall e v st d s (commonReferenceString st) = None \<longrightarrow>
      transact (validateProof_steps e ms p s d) st = (Inl ValidationRejected, st)"
    by (auto simp: transact_def validateProof_steps_eq getValidatorAddress_eq split: if_splits)
  have d: "\<not> ((\<forall>h \<in> set hs. h \<noteq> 0 \<and> validatedProofs st (validatedProofHash e h p ms)) \<and>
        distinct (map (\<lambda>h. validatedProofHash e h p ms) hs)) \<longrightarrow>
      (\<exists>err. transact (clearProofByHashes_steps e ms p hs) st = (Inl err, st))"
  proof
    assume "\<not> ((\<forall>h \<in> set hs. h \<noteq> 0 \<and> validatedProofs st (validatedProofHash e h p ms)) \<and>
        distinct (map (\<lambda>h. validatedProofHash e h p ms) hs))"
    with clear_succeeds_iff [of e st ms p hs]
    have "\<not> (\<exists>st'. clearProofByHashes e st ms p hs = Inr st')"
      by blast
    then obtain err where "clearProofByHashes e st ms p hs = Inl err"
      by (cases "clearProofByHashes e st ms p hs") auto
    then show "\<exists>err. transact (clearProofByHashes_steps e ms p hs) st = (Inl err, st)"
      using clearProofByHashes_steps_result [of e st ms p hs "[]"]
      by (auto simp: transact_def split: prod.splits sum.splits)
  qed
  have f: "clearProofByHashes_steps e ms p hs (st, []) = (Inl err, w, log) \<longrightarrow>
      set log \<subseteq> (\<lambda>h. SStore (validatedProofHash e h p ms) False) ` set hs \<and>
      (\<forall>k. validatedProofs w k \<longleftrightarrow> validatedProofs st k \<and> SStore k False \<notin> set log) \<and>
      transact (clearProofByHashes_steps e ms p hs) st = (Inl err, st)"
  proof
    assume r: "clearProofByHashes_steps e ms p hs (st, []) = (Inl err, w, log)"
    from clearProofByHashes_steps_log [OF r] r
    show "set log \<subseteq> (\<lambda>h. SStore (validatedProofHash e h p ms) False) ` set hs \<and>
      (\<forall>k. validatedProofs w k \<longleftrightarrow> validatedProofs st k \<and> SStore k False \<notin> set log) \<and>
      transact (clearProofByHashes_steps e ms p hs) st = (Inl err, st)"
      by (auto simp: transact_def)
  qed
  have g: "validateProof_steps e ms p s d (st, []) = (Inl err, w, log) \<longrightarrow>
      w = st \<and> (\<forall>k b. SStore k b \<notin> set log) \<and>
      transact (validateProof_steps e ms p s d) st = (Inl err, st)"
    by (auto simp: transact_def validateProof_steps_eq split: if_splits option.splits)
  have h: "validateProof_steps e ms p s d (st, []) = (Inr outs, w, log) \<longrightarrow>
      (\<exists>v. getValidatorAddress st p = Inr v \<and>
           staticcall e v st d s (commonReferenceString st) = Some outs \<and>
           log = StaticCall v st #
                 map (\<lambda>out. SStore (validatedProofHash e (keccak256 e out) p ms) True)
                   (if fst (snd (getProofComponents p)) = BALANCED e then outs else [])) \<and>
      owner w = owner st \<and> commonReferenceString w = commonReferenceString st \<and>
      validators w = validators st \<and> disabledValidators w = disabledValidators st \<and>
      latestEpoch w = latestEpoch st \<and>
      transact (validateProof_steps e ms p s d) st = (Inr outs, w)"
    using recordProofOutputs_frame [of e ms p outs st]
    by (auto simp: transact_def validateProof_steps_eq getValidatorAddress_eq
        split: if_splits option.splits)
  from a b c d f g h validateProof_transact [of e st ms p s d]
    clearProofByHashes_transact [of e st ms p hs]
  show ?thesis by blast
qed

theorem validate_and_clear_atomic_witness:
  "transact (validateProof_steps test_env 5 0x010101 6 [7]) test_state =
     (Inl UnknownValidator, test_state) \<and>
   transact (validateProof_steps test_env 5 0 6 [7]) disabled_state =
     (Inl DisabledValidator, disabled_state) \<and>
   transact (validateProof_steps test_env 5 0x010101 6 []) registered_state =
     (Inl ValidationRejected, registered_state) \<and>
   clearProofByHashes_steps test_env 5 0x010101 [7, 9] (validated_state, []) =
     (Inl NotPreviouslyValidated,
      validated_state\<lparr>validatedProofs := (validatedProofs validated_state)(225835 := False)\<rparr>,
      [SStore 225835 False]) \<and>
   validatedProofs validated_state 225835 \<and>
   transact (clearProofByHashes_steps test_env 5 0x010101 [7, 9]) validated_state =
     (Inl NotPreviouslyValidated, validated_state) \<and>
   validateProof_steps test_env 5 0x010101 6 [7] (registered_state, []) =
     (Inr [[7], [7, 7]], validated_state,
      [StaticCall 0xAA registered_state, SStore 225835 True, SStore 593248 True]) \<and>
   staticcall test_env 0xAA registered_state [7] 6 (commonReferenceString registered_state) =
     Some [[7], [7, 7]] \<and>
   validators validated_state = validators registered_state \<and>
   transact (validateProof_steps test_env 5 0x010101 6 [7]) registered_state =
     (Inr [[7], [7, 7]], validated_state)"
proof -
  note t = validate_and_clear_atomic
  have a: "validators test_state (unat (0x010101 :: uint24)) = 0"
    by (simp add: test_state_def)
  have b: "validators disabled_state (unat (0 :: uint24)) \<noteq> 0 \<and>
      disabledValidators disabled_state (unat (0 :: uint24)) \<noteq> 0"
    by (simp add: disabled_state_eq)
  have c: "getValidatorAddress registered_state 0x010101 = Inr 0xAA \<and>
      staticcall test_env 0xAA registered_state [] 6 (commonReferenceString registered_state) = None"
    by (simp add: getValidatorAddress_eq registered_state_eq(2) test_state_def test_env_fields)
  have k: "validatedProofHash test_env 9 0x010101 5 = 897006"
    by (simp add: test_key)
  have f: "clearProofByHashes_steps test_env 5 0x010101 [7, 9] (validated_state, []) =
     (Inl NotPreviouslyValidated,
      validated_state\<lparr>validatedProofs := (validatedProofs validated_state)(225835 := False)\<rparr>,
      [SStore 225835 False])"
    by (simp add: test_keys k Let_def sstore_validatedProofs_def)
       (simp add: validated_state_eq(2))
  have v: "validatedProofs validated_state 225835"
    by (simp add: validated_state_eq(2))
  have h: "validateProof_steps test_env 5 0x010101 6 [7] (registered_state, []) =
     (Inr [[7], [7, 7]], validated_state,
      [StaticCall 0xAA registered_state, SStore 225835 True, SStore 593248 True])"
  proof -
    have "validateProof_steps test_env 5 0x010101 6 [7] (registered_state, []) =
       (Inr [[7], [7, 7]],
        registered_state\<lparr>validatedProofs := (\<lambda>_. False)(225835 := True, 593248 := True)\<rparr>,
        [StaticCall 0xAA registered_state, SStore 225835 True, SStore 593248 True])"
      by (simp add: validateProof_steps_eq registered_state_eq(2) test_state_def
          getProofComponents_def test_hashes test_keys test_env_fields Let_def)
    then show ?thesis by (simp only: validated_state_eq(2))
  qed
  from t [of test_state "0x010101" test_env 5 6 "[7]"] a
  have 1: "transact (validateProof_steps test_env 5 0x010101 6 [7]) test_state =
     (Inl UnknownValidator, test_state)"
    by blast
  from t [of disabled_state 0 test_env 5 6 "[7]"] b
  have 2: "transact (validateProof_steps test_env 5 0 6 [7]) disabled_state =
     (Inl DisabledValidator, disabled_state)"
    by blast
  from t [of registered_state "0x010101" test_env 5 6 "[]" "0xAA"] c
  have 3: "transact (validateProof_steps test_env 5 0x010101 6 []) registered_state =
     (Inl ValidationRejected, registered_state)"
    by blast
  from t [of validated_state "0x010101" test_env 5 _ _ _ "[7, 9]" NotPreviouslyValidated
      "validated_state\<lparr>validatedProofs := (validatedProofs validated_state)(225835 := False)\<rparr>"
      "[SStore 225835 False]"] f
  have 4: "transact (clearProofByHashes_steps test_env 5 0x010101 [7, 9]) validated_state =
     (Inl NotPreviouslyValidated, validated_state)"
    by blast
  from t [of registered_state "0x010101" test_env 5 6 "[7]" _ _ _ validated_state
      "[StaticCall 0xAA registered_state, SStore 225835 True, SStore 593248 True]" "[[7], [7, 7]]"] h
  have 5: "\<exists>v. getValidatorAddress registered_state 0x010101 = Inr v \<and>
      staticcall test_env v registered_state [7] 6 (commonReferenceString registered_state) =
        Some [[7], [7, 7]]"
    and 6: "validators validated_state = validators registered_state"
    and 7: "transact (validateProof_steps test_env 5 0x010101 6 [7]) registered_state =
     (Inr [[7], [7, 7]], validated_state)"
    by blast+
  from 5 c have 8: "staticcall test_env 0xAA registered_state [7] 6
      (commonReferenceString registered_state) = Some [[7], [7, 7]]"
    by auto
  from 1 2 3 f v 4 h 8 6 7 show ?thesis by blast
qed

subsection \<open>C2: invalidating a proof\<close>

text \<open>
  C2 does not hold of the code. The owner registers the validator 0xAA for the proof
  0x010101, whose components are (1, 1, 1), and invalidates the proof. The flag
  \<^verbatim>\<open>disabledValidators[1][1][1]\<close> is then set, in byte 1 of the slot 2056 of the array.
  \<^verbatim>\<open>getValidatorAddress\<close> and \<^verbatim>\<open>validateProofByHash\<close> load the slot 65793 instead, which
  is zero: the validator is still returned, the consultation does not fail, and
  \<^verbatim>\<open>validateProof\<close> still succeeds and records its outputs.
\<close>

theorem invalidateProof_does_not_disable:
  "setProof test_state 1 0x010101 0xAA = Inr registered_state \<and>
   invalidateProof registered_state 1 0x010101 = Inr invalidated_state \<and>
   getProofComponents 0x010101 = (1, 1, 1) \<and>
   load_bool (disabledValidators invalidated_state (disabledValidators_index 1 1 1))
     (disabledValidators_byte 1) \<and>
   getValidatorAddress invalidated_state 0x010101 = Inr 0xAA \<and>
   validateProofByHash test_env invalidated_state 0x010101 7 5 = Inr False \<and>
   validateProof test_env invalidated_state 5 0x010101 6 [7] =
     Inr (invalidated_state\<lparr>validatedProofs := (\<lambda>_. False)(225835 := True, 593248 := True)\<rparr>,
          [[7], [7, 7]])"
proof -
  have "getProofComponents 0x010101 = (1, 1, 1)"
    by (simp add: getProofComponents_def)
  moreover have "load_bool (disabledValidators invalidated_state (disabledValidators_index 1 1 1))
     (disabledValidators_byte 1)"
    by (simp add: invalidated_state_eq(2) disabledValidators_index_def disabledValidators_byte_def
        load_bool_def)
  moreover have "getValidatorAddress invalidated_state 0x010101 = Inr 0xAA"
    by (simp add: getValidatorAddress_eq invalidated_state_eq(2) registered_state_eq(2) test_state_def)
  moreover have "validateProofByHash test_env invalidated_state 0x010101 7 5 = Inr False"
    by (simp add: validateProofByHash_eq invalidated_state_eq(2) registered_state_eq(2) test_state_def)
  moreover have "validateProof test_env invalidated_state 5 0x010101 6 [7] =
     Inr (invalidated_state\<lparr>validatedProofs := (\<lambda>_. False)(225835 := True, 593248 := True)\<rparr>,
          [[7], [7, 7]])"
    by (simp add: validateProof_eq invalidated_state_eq(2) registered_state_eq(2) test_state_def
        getProofComponents_def test_hashes test_keys test_env_fields Let_def)
  ultimately show ?thesis
    using registered_state_eq(1) invalidated_state_eq(1) by blast
qed

subsection \<open>C3: registration is write-once\<close>

text \<open>
  C3, as amended. After a \<^verbatim>\<open>setProof\<close> that succeeded with an address \<open>h1\<close> other than
  zero, the slot of the identifier holds \<open>h1\<close>. It still holds \<open>h1\<close> after any sequence
  of calls of the contract, those of the functions inherited from \<^verbatim>\<open>Ownable\<close> and
  \<^verbatim>\<open>NoteRegistry\<close> included, and after any such sequence a \<^verbatim>\<open>setProof\<close> for the same
  identifier fails: with "existing proofs cannot be modified" when the owner of that time
  calls, with "only the owner can set a proof" otherwise. Of the functions of
  \<^verbatim>\<open>NoteRegistry\<close>, which are not under src, the theorem assumes that they leave
  \<^verbatim>\<open>validators\<close> and \<^verbatim>\<open>latestEpoch\<close> as they are.
\<close>

theorem setProof_write_once:
  assumes "setProof st ms p h1 = Inr st1" and "h1 \<noteq> 0"
      and frame: "\<forall>ms x w w'. noteRegistry e ms x w = Inr w' \<longrightarrow>
                    validators w' = validators w \<and> latestEpoch w' = latestEpoch w"
  shows "validators st1 (unat p) = h1 \<and>
         (\<forall>cs. validators (run e st1 cs) (unat p) = h1 \<and>
               (\<forall>ms'. setProof (run e st1 cs) ms' p h2 =
                        Inl (if ms' = owner (run e st1 cs) then AlreadyRegistered
                             else Unauthorized)))"
proof -
  from assms(1,2) have b: "validators st1 (unat p) = h1"
    and ep: "fst (getProofComponents p) \<le> latestEpoch st1"
    by (auto simp: setProof_eq split: if_splits)
  have "validators (run e st1 cs) (unat p) = h1 \<and>
        (\<forall>ms'. setProof (run e st1 cs) ms' p h2 =
                  Inl (if ms' = owner (run e st1 cs) then AlreadyRegistered else Unauthorized))"
    for cs
  proof -
    from run_frame [OF frame, of st1 cs "unat p"] b assms(2)
    have l: "latestEpoch st1 \<le> latestEpoch (run e st1 cs)"
      and v: "validators (run e st1 cs) (unat p) = h1"
      by simp_all
    from ep l have "fst (getProofComponents p) \<le> latestEpoch (run e st1 cs)" by simp
    with v assms(2) show ?thesis by (simp add: setProof_eq)
  qed
  with b show ?thesis by blast
qed

theorem setProof_write_once_witness:
  "setProof test_state 1 0x010101 0xAA = Inr registered_state \<and> (0xAA :: address) \<noteq> 0 \<and>
   validators registered_state (unat (0x010101 :: uint24)) = 0xAA \<and>
   setProof registered_state (owner registered_state) 0x010101 0xBB = Inl AlreadyRegistered \<and>
   validators (run test_env registered_state
      [(1, SetProof 0x010101 0xBB), (1, IncrementLatestEpoch), (1, InvalidateProof 0x010101),
       (5, NoteRegistry [1]), (1, TransferOwnership 2), (2, SetProof 0x010101 0xBB)])
      (unat (0x010101 :: uint24)) = 0xAA \<and>
   owner (run test_env registered_state [(1, TransferOwnership 2)]) = 2 \<and>
   setProof (run test_env registered_state [(1, TransferOwnership 2)]) 2 0x010101 0xBB =
     Inl AlreadyRegistered \<and>
   setProof (run test_env registered_state [(1, TransferOwnership 2)]) 1 0x010101 0xBB =
     Inl Unauthorized"
proof -
  have h1: "setProof test_state 1 0x010101 0xAA = Inr registered_state"
    by (rule registered_state_eq)
  have h2: "(0xAA :: address) \<noteq> 0" by simp
  have h3: "\<forall>ms x w w'. noteRegistry test_env ms x w = Inr w' \<longrightarrow>
              validators w' = validators w \<and> latestEpoch w' = latestEpoch w"
    by (auto simp: test_env_def split: if_splits)
  have o: "owner (run test_env registered_state [(1, TransferOwnership 2)]) = 2"
    by (simp add: commit_def transferOwnership_def isOwner_def registered_state_eq(2)
        test_state_def)
  note t = setProof_write_once [OF h1 h2 h3, of "0xBB"]
  from t have 1: "validators registered_state (unat (0x010101 :: uint24)) = 0xAA" by blast
  from t [THEN conjunct2, rule_format, of "[]"]
  have 2: "setProof registered_state (owner registered_state) 0x010101 0xBB =
      Inl AlreadyRegistered"
    by simp
  from t
  have 3: "validators (run test_env registered_state
      [(1, SetProof 0x010101 0xBB), (1, IncrementLatestEpoch), (1, InvalidateProof 0x010101),
       (5, NoteRegistry [1]), (1, TransferOwnership 2), (2, SetProof 0x010101 0xBB)])
      (unat (0x010101 :: uint24)) = 0xAA" by blast
  from t [THEN conjunct2, rule_format, of "[(1, TransferOwnership 2)]", THEN conjunct2,
      rule_format, of 2] o
  have 4: "setProof (run test_env registered_state [(1, TransferOwnership 2)]) 2 0x010101 0xBB =
     Inl AlreadyRegistered"
    by simp
  from t [THEN conjunct2, rule_format, of "[(1, TransferOwnership 2)]", THEN conjunct2,
      rule_format, of 1] o
  have 5: "setProof (run test_env registered_state [(1, TransferOwnership 2)]) 1 0x010101 0xBB =
     Inl Unauthorized"
    by simp
  from h1 h2 1 2 3 o 4 5 show ?thesis by blast
qed

text \<open>
  The claim as stated fails for the zero address: registering it succeeds and leaves the
  slot empty, so that a second registration succeeds and binds another address.
\<close>

theorem setProof_zero_then_overwritten:
  "setProof test_state 1 0x010101 0 = Inr zero_registered_state \<and>
   setProof zero_registered_state 1 0x010101 0xBB =
     Inr (zero_registered_state\<lparr>validators := (validators zero_registered_state)(65793 := 0xBB)\<rparr>)"
  by (simp add: zero_registered_state_eq(1))
     (simp add: setProof_eq zero_registered_state_eq(2) test_state_def getProofComponents_def)

subsection \<open>C4: dispatch, consultation and clearing\<close>

text \<open>
  C4, as amended. Let the proof identifier be of the BALANCED category and resolve to a
  validator (\<^verbatim>\<open>getValidatorAddress\<close> returns its address), and let that validator return
  the two sub-outputs \<open>o1\<close> and \<open>o2\<close>. Then \<^verbatim>\<open>validateProof\<close>, called by \<open>ms\<close> with
  any \<^verbatim>\<open>_sender\<close> argument \<open>s\<close>, succeeds, and \<^verbatim>\<open>validateProofByHash\<close> is true for
  both hashes and the caller \<open>ms\<close>. When the first hash is not zero, \<open>ms\<close> can clear
  it; after that clearing \<^verbatim>\<open>validateProofByHash\<close> is false for the first hash, and
  still true for the second one when the two ledger keys differ.
\<close>

theorem validate_consult_clear_roundtrip:
  assumes bal: "fst (snd (getProofComponents p)) = BALANCED e"
      and reg: "getValidatorAddress st p = Inr v"
      and val: "staticcall e v st d s (commonReferenceString st) = Some [o1, o2]"
  shows "\<exists>st1. validateProof e st ms p s d = Inr (st1, [o1, o2]) \<and>
           validateProofByHash e st1 p (keccak256 e o1) ms = Inr True \<and>
           validateProofByHash e st1 p (keccak256 e o2) ms = Inr True \<and>
           (keccak256 e o1 \<noteq> 0 \<longrightarrow>
              (\<exists>st2. clearProofByHashes e st1 ms p [keccak256 e o1] = Inr st2)) \<and>
           (\<forall>st2. clearProofByHashes e st1 ms p [keccak256 e o1] = Inr st2 \<longrightarrow>
              validateProofByHash e st2 p (keccak256 e o1) ms = Inr False \<and>
              (validatedProofHash e (keccak256 e o2) p ms \<noteq> validatedProofHash e (keccak256 e o1) p ms \<longrightarrow>
                 validateProofByHash e st2 p (keccak256 e o2) ms = Inr True))"
proof -
  from reg have r: "validators st (unat p) \<noteq> 0" "disabledValidators st (unat p) = 0"
    "v = validators st (unat p)"
    by (auto simp: getValidatorAddress_eq split: if_splits)
  define st1 where "st1 = recordProofOutputs e ms p [o1, o2] st"
  have v: "validateProof e st ms p s d = Inr (st1, [o1, o2])"
    using bal r val by (simp add: validateProof_eq st1_def)
  have d1: "disabledValidators st1 (unat p) = 0"
    using r recordProofOutputs_frame [of e ms p "[o1, o2]" st] by (simp add: st1_def)
  have l1: "validatedProofs st1 (validatedProofHash e (keccak256 e o1) p ms)"
    "validatedProofs st1 (validatedProofHash e (keccak256 e o2) p ms)"
    by (simp_all add: st1_def recordProofOutputs_ledger)
  have c: "\<And>st2. clearProofByHashes e st1 ms p [keccak256 e o1] = Inr st2 \<Longrightarrow>
      disabledValidators st2 (unat p) = 0 \<and>
      (\<forall>k. validatedProofs st2 k \<longleftrightarrow>
         validatedProofs st1 k \<and> k \<noteq> validatedProofHash e (keccak256 e o1) p ms)"
    using d1 by (auto simp: Let_def split: if_splits)
  have a: "validateProofByHash e st1 p (keccak256 e o1) ms = Inr True"
    "validateProofByHash e st1 p (keccak256 e o2) ms = Inr True"
    using d1 l1 by (simp_all add: validateProofByHash_eq)
  have b: "keccak256 e o1 \<noteq> 0 \<longrightarrow>
      (\<exists>st2. clearProofByHashes e st1 ms p [keccak256 e o1] = Inr st2)"
    using l1 by (simp add: Let_def)
  have f: "validateProofByHash e st2 p (keccak256 e o1) ms = Inr False"
    if "clearProofByHashes e st1 ms p [keccak256 e o1] = Inr st2" for st2
    using c [OF that] by (simp add: validateProofByHash_eq)
  have g: "validateProofByHash e st2 p (keccak256 e o2) ms = Inr True"
    if "clearProofByHashes e st1 ms p [keccak256 e o1] = Inr st2"
      and "validatedProofHash e (keccak256 e o2) p ms \<noteq> validatedProofHash e (keccak256 e o1) p ms"
    for st2
    using c [OF that(1)] that(2) l1 by (simp add: validateProofByHash_eq)
  from v a b f g show ?thesis by blast
qed

theorem validate_consult_clear_roundtrip_witness:
  "fst (snd (getProofComponents 0x010101)) = BALANCED test_env \<and>
   getValidatorAddress registered_state 0x010101 = Inr 0xAA \<and>
   staticcall test_env 0xAA registered_state [7] 6 (commonReferenceString registered_state) =
     Some [[7], [7, 7]] \<and>
   validateProof test_env registered_state 5 0x010101 6 [7] = Inr (validated_state, [[7], [7, 7]]) \<and>
   validateProofByHash test_env validated_state 0x010101 (keccak256 test_env [7]) 5 = Inr True \<and>
   validateProofByHash test_env validated_state 0x010101 (keccak256 test_env [7, 7]) 5 = Inr True \<and>
   clearProofByHashes test_env validated_state 5 0x010101 [keccak256 test_env [7]] = Inr cleared_state \<and>
   validateProofByHash test_env cleared_state 0x010101 (keccak256 test_env [7]) 5 = Inr False \<and>
   validateProofByHash test_env cleared_state 0x010101 (keccak256 test_env [7, 7]) 5 = Inr True"
proof -
  have h1: "fst (snd (getProofComponents 0x010101)) = BALANCED test_env"
    by (simp add: getProofComponents_def test_env_fields)
  have h2: "getValidatorAddress registered_state 0x010101 = Inr 0xAA"
    by (simp add: getValidatorAddress_eq registered_state_eq(2) test_state_def)
  have h3: "staticcall test_env 0xAA registered_state [7] 6 (commonReferenceString registered_state) =
     Some [[7], [7, 7]]"
    by (simp add: test_env_fields)
  have k: "validatedProofHash test_env (keccak256 test_env [7, 7]) 0x010101 5 \<noteq>
      validatedProofHash test_env (keccak256 test_env [7]) 0x010101 5"
    by (simp add: test_hashes test_keys)
  have c: "clearProofByHashes test_env validated_state 5 0x010101 [keccak256 test_env [7]] =
      Inr cleared_state"
    by (simp only: test_hashes cleared_state_eq(1))
  from validate_consult_clear_roundtrip [OF h1 h2 h3, of 5] validated_state_eq(1)
  have "validateProofByHash test_env validated_state 0x010101 (keccak256 test_env [7]) 5 = Inr True"
    and "validateProofByHash test_env validated_state 0x010101 (keccak256 test_env [7, 7]) 5 = Inr True"
    and "\<forall>st2. clearProofByHashes test_env validated_state 5 0x010101 [keccak256 test_env [7]] = Inr st2 \<longrightarrow>
              validateProofByHash test_env st2 0x010101 (keccak256 test_env [7]) 5 = Inr False \<and>
              (validatedProofHash test_env (keccak256 test_env [7, 7]) 0x010101 5 \<noteq>
               validatedProofHash test_env (keccak256 test_env [7]) 0x010101 5 \<longrightarrow>
                 validateProofByHash test_env st2 0x010101 (keccak256 test_env [7, 7]) 5 = Inr True)"
    by auto
  with c k h1 h2 h3 validated_state_eq(1) show ?thesis by blast
qed

text \<open>
  The claim as stated fails twice. The ledger is keyed by the caller and not by the
  \<^verbatim>\<open>_sender\<close> argument: after the account 0x05 had the proof validated with 0x06 as
  \<^verbatim>\<open>_sender\<close>, the consultation for 0x06 is false. And when the two sub-outputs are
  equal, clearing the first hash clears the second, which is the same record.
\<close>

theorem roundtrip_sender_and_twin_outputs:
  "validateProof test_env registered_state 5 0x010101 6 [7] = Inr (validated_state, [[7], [7, 7]]) \<and>
   validateProofByHash test_env validated_state 0x010101 (keccak256 test_env [7]) 6 = Inr False \<and>
   validateProof test_env twin_state 5 0x010102 5 [7] = Inr (twin_validated_state, [[7], [7]]) \<and>
   clearProofByHashes test_env twin_validated_state 5 0x010102 [keccak256 test_env [7]] =
     Inr twin_cleared_state \<and>
   validateProofByHash test_env twin_cleared_state 0x010102 (keccak256 test_env [7]) 5 = Inr False"
proof -
  have "validateProofByHash test_env validated_state 0x010101 (keccak256 test_env [7]) 6 = Inr False"
    by (simp add: validateProofByHash_eq validated_state_eq(2) registered_state_eq(2)
        test_state_def test_hashes test_keys)
  moreover have "validateProofByHash test_env twin_cleared_state 0x010102 (keccak256 test_env [7]) 5 =
      Inr False"
    by (simp add: validateProofByHash_eq twin_cleared_state_eq(2) twin_state_eq(2)
        test_state_def test_hashes twin_key)
  moreover have "clearProofByHashes test_env twin_validated_state 5 0x010102 [keccak256 test_env [7]] =
      Inr twin_cleared_state"
    by (simp only: test_hashes twin_cleared_state_eq(1))
  ultimately show ?thesis
    using validated_state_eq(1) twin_validated_state_eq(1) by blast
qed

subsection \<open>C5: the key of the ledger records\<close>

text \<open>
  C5, as amended. After a successful \<^verbatim>\<open>validateProof\<close> of a BALANCED proof, called by
  \<open>ms\<close>, the record of every sub-output is true under the key made of its hash, the
  proof identifier and the caller \<open>ms\<close> (\<^verbatim>\<open>msg.sender\<close>); these are the only records
  that the call sets, whatever the \<^verbatim>\<open>_sender\<close> argument \<open>s\<close> is.
\<close>

theorem validateProof_records_under_caller:
  assumes "fst (snd (getProofComponents p)) = BALANCED e"
      and "validateProof e st ms p s d = Inr (st', outs)"
  shows "(\<forall>out \<in> set outs. validatedProofs st' (validatedProofHash e (keccak256 e out) p ms)) \<and>
         (\<forall>k. validatedProofs st' k \<longleftrightarrow>
                validatedProofs st k \<or>
                (\<exists>out \<in> set outs. k = validatedProofHash e (keccak256 e out) p ms))"
  using assms
  by (auto simp: validateProof_eq recordProofOutputs_ledger split: if_splits option.splits)

theorem validateProof_records_under_caller_witness:
  "fst (snd (getProofComponents 0x010101)) = BALANCED test_env \<and>
   validateProof test_env registered_state 5 0x010101 6 [7] = Inr (validated_state, [[7], [7, 7]]) \<and>
   validatedProofs validated_state (validatedProofHash test_env (keccak256 test_env [7]) 0x010101 5) \<and>
   validatedProofs validated_state (validatedProofHash test_env (keccak256 test_env [7, 7]) 0x010101 5)"
proof -
  have h1: "fst (snd (getProofComponents 0x010101)) = BALANCED test_env"
    by (simp add: getProofComponents_def test_env_fields)
  have h2: "validateProof test_env registered_state 5 0x010101 6 [7] =
      Inr (validated_state, [[7], [7, 7]])"
    by (rule validated_state_eq)
  show ?thesis
    using validateProof_records_under_caller [OF h1 h2] h1 h2 by simp
qed

text \<open>
  The claim as stated fails: called by 0x05 with 0x06 as \<^verbatim>\<open>_sender\<close>, the call leaves the
  record keyed by 0x06 false and sets the one keyed by 0x05.
\<close>

theorem validateProof_not_keyed_by_sender_argument:
  "validateProof test_env registered_state 5 0x010101 6 [7] = Inr (validated_state, [[7], [7, 7]]) \<and>
   \<not> validatedProofs validated_state (validatedProofHash test_env (keccak256 test_env [7]) 0x010101 6) \<and>
   validatedProofs validated_state (validatedProofHash test_env (keccak256 test_env [7]) 0x010101 5)"
  by (simp add: validated_state_eq(1)) (simp add: validated_state_eq(2) test_hashes test_keys)

subsection \<open>C6: clearing\<close>

text \<open>
  C6, as amended. \<^verbatim>\<open>clearProofByHashes\<close> succeeds exactly when every listed hash is
  non-zero, its record under the caller's key is true, and the keys of the listed hashes
  are pairwise distinct (no hash is listed twice). A call that fails reverts with one of
  the two messages of the loop and leaves the storage as it was. After a call that
  succeeds every listed record is false, every other record is unchanged, and clearing
  any of the listed hashes again fails with "can only clear previously validated
  proofs".
\<close>

theorem clearProofByHashes_all_or_nothing:
  "((\<exists>st'. clearProofByHashes e st ms p hs = Inr st') \<longleftrightarrow>
      (\<forall>h \<in> set hs. h \<noteq> 0 \<and> validatedProofs st (validatedProofHash e h p ms)) \<and>
      distinct (map (\<lambda>h. validatedProofHash e h p ms) hs)) \<and>
   (clearProofByHashes e st ms p hs = Inl err \<longrightarrow>
      (err = InvalidFingerprint \<or> err = NotPreviouslyValidated) \<and>
      commit st (clearProofByHashes e st ms p hs) = st) \<and>
   (clearProofByHashes e st ms p hs = Inr st' \<longrightarrow>
      (\<forall>h \<in> set hs. \<not> validatedProofs st' (validatedProofHash e h p ms)) \<and>
      (\<forall>k. k \<notin> (\<lambda>h. validatedProofHash e h p ms) ` set hs \<longrightarrow>
           validatedProofs st' k = validatedProofs st k) \<and>
      (\<forall>h \<in> set hs. clearProofByHashes e st' ms p [h] = Inl NotPreviouslyValidated))"
proof (intro conjI impI)
  show "(\<exists>st'. clearProofByHashes e st ms p hs = Inr st') \<longleftrightarrow>
      (\<forall>h \<in> set hs. h \<noteq> 0 \<and> validatedProofs st (validatedProofHash e h p ms)) \<and>
      distinct (map (\<lambda>h. validatedProofHash e h p ms) hs)"
    by (rule clear_succeeds_iff)
next
  assume "clearProofByHashes e st ms p hs = Inl err"
  then show "err = InvalidFingerprint \<or> err = NotPreviouslyValidated"
    by (rule clear_error)
next
  assume "clearProofByHashes e st ms p hs = Inl err"
  then show "commit st (clearProofByHashes e st ms p hs) = st"
    by (simp add: commit_def)
next
  assume ok: "clearProofByHashes e st ms p hs = Inr st'"
  then show "\<forall>h \<in> set hs. \<not> validatedProofs st' (validatedProofHash e h p ms)"
    by (simp add: clear_ledger)
next
  assume ok: "clearProofByHashes e st ms p hs = Inr st'"
  then show "\<forall>k. k \<notin> (\<lambda>h. validatedProofHash e h p ms) ` set hs \<longrightarrow>
           validatedProofs st' k = validatedProofs st k"
    by (simp add: clear_ledger)
next
  assume ok: "clearProofByHashes e st ms p hs = Inr st'"
  show "\<forall>h \<in> set hs. clearProofByHashes e st' ms p [h] = Inl NotPreviouslyValidated"
  proof
    fix h assume h: "h \<in> set hs"
    from ok have "\<exists>st'. clearProofByHashes e st ms p hs = Inr st'" by blast
    with h have "h \<noteq> 0" by (simp add: clear_succeeds_iff)
    moreover from ok h have "\<not> validatedProofs st' (validatedProofHash e h p ms)"
      by (simp add: clear_ledger)
    ultimately show "clearProofByHashes e st' ms p [h] = Inl NotPreviouslyValidated"
      by (simp add: Let_def)
  qed
qed

theorem clearProofByHashes_all_or_nothing_witness:
  "(\<exists>st'. clearProofByHashes test_env twin_validated_state 5 0x010102 [7] = Inr st') \<and>
   clearProofByHashes test_env twin_validated_state 5 0x010102 [7, 7] = Inl NotPreviouslyValidated \<and>
   commit twin_validated_state (clearProofByHashes test_env twin_validated_state 5 0x010102 [7, 7]) =
     twin_validated_state \<and>
   \<not> validatedProofs twin_cleared_state (validatedProofHash test_env 7 0x010102 5) \<and>
   clearProofByHashes test_env twin_cleared_state 5 0x010102 [7] = Inl NotPreviouslyValidated"
proof -
  have ok: "clearProofByHashes test_env twin_validated_state 5 0x010102 [7] = Inr twin_cleared_state"
    by (rule twin_cleared_state_eq)
  have bad: "clearProofByHashes test_env twin_validated_state 5 0x010102 [7, 7] =
      Inl NotPreviouslyValidated"
    by (simp add: twin_validated_state_eq(2) twin_key Let_def)
  note t1 = clearProofByHashes_all_or_nothing
    [of test_env twin_validated_state 5 "0x010102" "[7]" _ twin_cleared_state]
  note t2 = clearProofByHashes_all_or_nothing
    [of test_env twin_validated_state 5 "0x010102" "[7, 7]" NotPreviouslyValidated]
  from t1 ok have "\<not> validatedProofs twin_cleared_state (validatedProofHash test_env 7 0x010102 5)"
    and "clearProofByHashes test_env twin_cleared_state 5 0x010102 [7] = Inl NotPreviouslyValidated"
    by simp_all
  moreover from t2 bad
  have "commit twin_validated_state (clearProofByHashes test_env twin_validated_state 5 0x010102 [7, 7]) =
     twin_validated_state" by blast
  ultimately show ?thesis using ok bad by simp
qed

text \<open>
  The claim as stated fails on a list that names a hash twice: the hash is non-zero and
  its record is true when the call starts, and the call fails at the second occurrence.
\<close>

theorem clearProofByHashes_duplicate_fails:
  "(7 :: bytes32) \<noteq> 0 \<and>
   validatedProofs twin_validated_state (validatedProofHash test_env 7 0x010102 5) \<and>
   clearProofByHashes test_env twin_validated_state 5 0x010102 [7, 7] = Inl NotPreviouslyValidated"
  by (simp add: twin_validated_state_eq(2) twin_key Let_def)

subsection \<open>C7: the epoch gate of registration\<close>

text \<open>
  C7. When the epoch of the identifier exceeds \<^verbatim>\<open>latestEpoch\<close>, \<^verbatim>\<open>setProof\<close> called by
  the owner fails with "the proof epoch cannot be bigger than the latest epoch" and no
  binding is stored (a caller other than the owner does not get as far: the ownership
  check, which comes first, turns the call away, and nothing is stored either). A
  \<^verbatim>\<open>setProof\<close> that succeeds was made by the owner with an epoch of at most
  \<^verbatim>\<open>latestEpoch\<close>.
\<close>

theorem setProof_epoch_gate:
  "(latestEpoch st < fst (getProofComponents p) \<longrightarrow>
      setProof st ms p h = Inl (if ms = owner st then EpochExceeded else Unauthorized) \<and>
      commit st (setProof st ms p h) = st) \<and>
   (setProof st ms p h = Inr st' \<longrightarrow>
      ms = owner st \<and> fst (getProofComponents p) \<le> latestEpoch st)"
  by (auto simp: setProof_eq commit_def split: if_splits)

theorem setProof_epoch_gate_witness:
  "latestEpoch test_state < fst (getProofComponents 0x050101) \<and>
   setProof test_state (owner test_state) 0x050101 0xAA = Inl EpochExceeded \<and>
   commit test_state (setProof test_state (owner test_state) 0x050101 0xAA) = test_state \<and>
   setProof test_state 1 0x010101 0xAA = Inr registered_state \<and>
   fst (getProofComponents 0x010101) \<le> latestEpoch test_state"
proof -
  have h1: "latestEpoch test_state < fst (getProofComponents 0x050101)"
    by (simp add: test_state_def getProofComponents_def)
  have h2: "setProof test_state 1 0x010101 0xAA = Inr registered_state"
    by (rule registered_state_eq)
  from setProof_epoch_gate [of test_state "0x050101" "owner test_state" "0xAA", THEN conjunct1, rule_format, OF h1]
    setProof_epoch_gate [of test_state "0x010101" 1 "0xAA" registered_state, THEN conjunct2, rule_format, OF h2]
    h1 h2
  show ?thesis by (simp add: commit_def)
qed

subsection \<open>C8: incrementing the epoch\<close>

text \<open>
  C8, as amended. \<^verbatim>\<open>incrementLatestEpoch\<close> fails for a caller that is not the owner;
  called by the owner it fails when \<^verbatim>\<open>latestEpoch\<close> is 255 (the checked addition of
  \<^verbatim>\<open>SafeMath8\<close>), and otherwise succeeds and increases \<^verbatim>\<open>latestEpoch\<close> by exactly 1.
\<close>

theorem incrementLatestEpoch_owner:
  "incrementLatestEpoch st ms =
     (if ms \<noteq> owner st then Inl Unauthorized
      else if latestEpoch st = 255 then Inl Overflow
      else Inr (st\<lparr>latestEpoch := latestEpoch st + 1\<rparr>)) \<and>
   (latestEpoch st \<noteq> 255 \<longrightarrow> unat (latestEpoch st + 1) = unat (latestEpoch st) + 1)"
  by (simp add: incrementLatestEpoch_eq unat_inc)

theorem incrementLatestEpoch_owner_witness:
  "latestEpoch test_state \<noteq> 255 \<and>
   incrementLatestEpoch test_state (owner test_state) = Inr (test_state\<lparr>latestEpoch := 2\<rparr>) \<and>
   unat (latestEpoch test_state + 1) = unat (latestEpoch test_state) + 1"
  using incrementLatestEpoch_owner [of test_state "owner test_state"]
  by (simp add: test_state_def)

text \<open>
  The claim as stated fails at \<^verbatim>\<open>latestEpoch = 255\<close>: the owner's call reverts, and an
  8-bit counter could not have increased by 1 there.
\<close>

theorem incrementLatestEpoch_overflow:
  "isOwner (test_state\<lparr>latestEpoch := 255\<rparr>) 1 \<and>
   incrementLatestEpoch (test_state\<lparr>latestEpoch := 255\<rparr>) 1 = Inl Overflow \<and>
   unat (latestEpoch (test_state\<lparr>latestEpoch := 255\<rparr>) + 1) \<noteq>
     unat (latestEpoch (test_state\<lparr>latestEpoch := 255\<rparr>)) + 1"
  by (simp add: incrementLatestEpoch_eq isOwner_def test_state_def)

subsection \<open>C9: proofs of another category\<close>

text \<open>
  C9. A successful \<^verbatim>\<open>validateProof\<close> of a proof whose category is not BALANCED leaves the
  whole storage, and so every record of \<^verbatim>\<open>validatedProofs\<close>, as it was, whatever the
  validator returned.
\<close>

theorem validateProof_non_balanced_writes_nothing:
  assumes "fst (snd (getProofComponents p)) \<noteq> BALANCED e"
      and "validateProof e st ms p s d = Inr (st', outs)"
  shows "st' = st \<and> validatedProofs st' = validatedProofs st"
  using assms by (auto simp: validateProof_eq split: if_splits option.splits)

theorem validateProof_non_balanced_writes_nothing_witness:
  "fst (snd (getProofComponents 0x010201)) \<noteq> BALANCED test_env \<and>
   validateProof test_env utility_state 5 0x010201 6 [7] = Inr (utility_state, [[7], [7, 7]]) \<and>
   validatedProofs utility_state = validatedProofs test_state"
proof -
  have h1: "fst (snd (getProofComponents 0x010201)) \<noteq> BALANCED test_env"
    by (simp add: getProofComponents_def test_env_def)
  have h2: "validateProof test_env utility_state 5 0x010201 6 [7] = Inr (utility_state, [[7], [7, 7]])"
    by (simp add: validateProof_eq utility_state_eq(2) test_state_def getProofComponents_def test_env_def)
  show ?thesis
    using validateProof_non_balanced_writes_nothing [OF h1 h2] h1 h2
    by (simp add: utility_state_eq(2))
qed

subsection \<open>C10: registering the zero address\<close>

text \<open>
  C10. For an identifier whose epoch is at most \<^verbatim>\<open>latestEpoch\<close> and that has no binding,
  the owner's \<^verbatim>\<open>setProof\<close> with the zero address succeeds; after it
  \<^verbatim>\<open>getValidatorAddress\<close> and \<^verbatim>\<open>validateProof\<close> still fail with "expected the
  validator address to exist", and a further \<^verbatim>\<open>setProof\<close> of the owner for the same
  identifier succeeds and binds its address.
\<close>

theorem setProof_zero_handle:
  assumes "fst (getProofComponents p) \<le> latestEpoch st" and "validators st (unat p) = 0"
  shows "\<exists>st1. setProof st (owner st) p 0 = Inr st1 \<and>
           getValidatorAddress st1 p = Inl UnknownValidator \<and>
           validateProof e st1 ms p s d = Inl UnknownValidator \<and>
           (\<exists>st2. setProof st1 (owner st1) p h = Inr st2 \<and> validators st2 (unat p) = h)"
  using assms by (simp add: setProof_eq getValidatorAddress_eq validateProof_eq)

theorem setProof_zero_handle_witness:
  "fst (getProofComponents 0x010101) \<le> latestEpoch test_state \<and>
   validators test_state (unat (0x010101 :: 24 word)) = 0 \<and>
   (\<exists>st1. setProof test_state (owner test_state) 0x010101 0 = Inr st1 \<and>
      getValidatorAddress st1 0x010101 = Inl UnknownValidator \<and>
      validateProof test_env st1 5 0x010101 6 [7] = Inl UnknownValidator \<and>
      (\<exists>st2. setProof st1 (owner st1) 0x010101 0xAA = Inr st2 \<and>
         validators st2 (unat (0x010101 :: 24 word)) = 0xAA))"
proof -
  have h1: "fst (getProofComponents 0x010101) \<le> latestEpoch test_state"
    by (simp add: test_state_def getProofComponents_def)
  have h2: "validators test_state (unat (0x010101 :: 24 word)) = 0"
    by (simp add: test_state_def)
  show ?thesis
    using setProof_zero_handle [OF h1 h2, of test_env 5 6 "[7]" "0xAA"] h1 h2 by blast
qed

end
